theory Spec2Isabelle
  imports Complex_Main "HOL-Library.Char_ord" "HOL-Library.List_Lexorder"
begin

section \<open>Tensors\<close>

text \<open>
  A torch tensor is modelled by nested lists, outermost dimension first, with the
  floating-point entries idealised as reals. A tensor is rectangular; the shape
  predicates below say so for a list.
\<close>

type_synonym vec = "real list"
type_synonym tensor2 = "real list list"
type_synonym tensor3 = "real list list list"
type_synonym mask = "bool list list"
type_synonym image = "nat list"

definition shape2 :: "nat \<Rightarrow> nat \<Rightarrow> 'a list list \<Rightarrow> bool" where
  "shape2 B L x \<longleftrightarrow> length x = B \<and> (\<forall>r \<in> set x. length r = L)"

definition shape3 :: "nat \<Rightarrow> nat \<Rightarrow> nat \<Rightarrow> 'a list list list \<Rightarrow> bool" where
  "shape3 B L D x \<longleftrightarrow> length x = B \<and> (\<forall>s \<in> set x. shape2 L D s)"

section \<open>Errors and task tags\<close>

text \<open>
  The four task classes of \<open>src/models/datatypes\<close> are the keys of the dispatch
  dictionary; \<open>forward\<close> takes any Python object as its \<open>task\<close>, which
  \<open>OtherTask\<close> stands for (by name).
\<close>

datatype task =
    OutfitCompatibilityPredictionTask
  | OutfitComplementaryItemRetrievalTask
  | OutfitFillInTheBlankTask
  | OutfitPrecomputeEmbeddingTask
  | OtherTask string

text \<open>
  The messages of the \<open>ValueError\<close>s of the trainer are Chinese string literals;
  they are named here by what they say.
\<close>

datatype message =
    Test_mode_not_distributed    \<comment> \<open>"distributed runs are not supported in test mode"\<close>
  | Unknown_run_mode             \<comment> \<open>"unknown run mode"\<close>
  | Concatenate_dimensions       \<comment> \<open>numpy: array dimensions must match\<close>

datatype error =
    KeyError task                \<comment> \<open>a missing key of the dictionary \<open>forward_\<close>\<close>
  | TypeError                    \<comment> \<open>a handler called with another handler's arguments\<close>
  | RuntimeError                 \<comment> \<open>torch: the shapes of the operands do not fit\<close>
  | IndexError                   \<comment> \<open>torch: index 0 of a dimension of size 0\<close>
  | FileNotFoundError string     \<comment> \<open>no file matches the prefix\<close>
  | ValueError message
  | ZeroDivisionError

definition bind_err :: "error + 'a \<Rightarrow> ('a \<Rightarrow> error + 'b) \<Rightarrow> error + 'b" where
  "bind_err r f = (case r of Inl e \<Rightarrow> Inl e | Inr v \<Rightarrow> f v)"

section \<open>The operations of torch the model uses\<close>

text \<open>
  \<open>torch.cat(dim=1)\<close> of two-dimensional tensors wants equal batch sizes; of
  three-dimensional tensors it also wants equal last dimensions.
\<close>

definition torch_cat_dim1 :: "'a list list \<Rightarrow> 'a list list \<Rightarrow> error + 'a list list" where
  "torch_cat_dim1 a b =
     (if length a = length b then Inr (map2 (@) a b) else Inl RuntimeError)"

definition torch_cat3_dim1 :: "tensor3 \<Rightarrow> tensor3 \<Rightarrow> error + tensor3" where
  "torch_cat3_dim1 a b =
     (if \<forall>u \<in> set (concat a). \<forall>v \<in> set (concat b). length u = length v
      then torch_cat_dim1 a b else Inl RuntimeError)"

text \<open>\<open>x[:, 0, :]\<close>: the entry at position 0 of every sequence of the batch.\<close>

definition select_position0 :: "'a list list \<Rightarrow> error + 'a list" where
  "select_position0 x = (if [] \<in> set x then Inl IndexError else Inr (map hd x))"

definition dot :: "vec \<Rightarrow> vec \<Rightarrow> real" where
  "dot w x = (\<Sum>(a, b) \<leftarrow> zip w x. a * b)"

text \<open>
  \<open>nn.Linear\<close> with weight \<open>W\<close> of shape [out, in] and an optional bias of shape
  [out], applied to a batch [B, in].
\<close>

definition linear :: "real list list \<Rightarrow> real list option \<Rightarrow> tensor2 \<Rightarrow> error + tensor2" where
  "linear W bias x =
     (if \<forall>r \<in> set x. \<forall>w \<in> set W. length r = length w
      then Inr (map (\<lambda>r. case bias of
                            None \<Rightarrow> map (\<lambda>w. dot w r) W
                          | Some b \<Rightarrow> map2 (\<lambda>w c. dot w r + c) W b) x)
      else Inl RuntimeError)"

text \<open>
  \<open>nn.Dropout(p)\<close> on a batch [B, D]. In training mode the entry (i, j) is kept and
  scaled by 1 / (1 - p) when the draw \<open>keep i j\<close> says so and zeroed otherwise; in
  evaluation mode the layer is the identity. The draws are an argument: they are what
  differs between two runs.
\<close>

definition dropout :: "real \<Rightarrow> bool \<Rightarrow> (nat \<Rightarrow> nat \<Rightarrow> bool) \<Rightarrow> tensor2 \<Rightarrow> tensor2" where
  "dropout p train keep x =
     (if train
      then map (\<lambda>(i, r). map (\<lambda>(j, v). if keep i j then v / (1 - p) else 0) (enumerate 0 r))
             (enumerate 0 x)
      else x)"

record draws =
  item_draws :: "nat \<Rightarrow> bool"
  encoder_draws :: "nat \<Rightarrow> bool"
  cp_keep :: "nat \<Rightarrow> nat \<Rightarrow> bool"

text \<open>
  A torch module that is given its mode and the draws of its dropout layers has dropout
  disabled in evaluation mode when, in that mode, what it computes does not depend on
  the draws.
\<close>

definition dropout_disabled_in_evaluation :: "(bool \<Rightarrow> (nat \<Rightarrow> bool) \<Rightarrow> 'a) \<Rightarrow> bool" where
  "dropout_disabled_in_evaluation f \<longleftrightarrow> (\<forall>rho rho'. f False rho = f False rho')"

section \<open>The self-attention stack\<close>

text \<open>
  Modelled from the spec: \<open>nn.TransformerEncoder\<close> is PyTorch's and not a file of
  the repository. The spec (4.3) says it is a stack of self-attention layers run "with
  the mask excluding padded positions from attention". A layer is therefore a function
  that gives the new state of position \<open>i\<close> of outfit \<open>b\<close> from the state of that
  position and the states of the positions of the same outfit whose mask entry is
  \<open>False\<close>; what it computes from them (heads, feed-forward width, normalisation,
  activation, its own dropout with the draws it consumes) is left open. Every layer of
  the stack gets the same mask. The stack wants a mask of the shape of the sequence and
  vectors of its model dimension.
\<close>

type_synonym encoder_layer = "bool \<Rightarrow> (nat \<Rightarrow> bool) \<Rightarrow> nat \<Rightarrow> nat \<Rightarrow> vec \<Rightarrow> vec list \<Rightarrow> vec"

definition visible :: "bool list \<Rightarrow> 'a list \<Rightarrow> 'a list" where
  "visible ms xs = map snd (filter (\<lambda>(m, x). \<not> m) (zip ms xs))"

definition layer_outfit ::
  "encoder_layer \<Rightarrow> bool \<Rightarrow> (nat \<Rightarrow> bool) \<Rightarrow> nat \<Rightarrow> bool list \<Rightarrow> vec list \<Rightarrow> vec list" where
  "layer_outfit lyr train rho b ms xs =
     map (\<lambda>(i, x). lyr train rho b i x (visible ms xs)) (enumerate 0 xs)"

definition layer_batch ::
  "bool \<Rightarrow> (nat \<Rightarrow> bool) \<Rightarrow> mask \<Rightarrow> encoder_layer \<Rightarrow> tensor3 \<Rightarrow> tensor3" where
  "layer_batch train rho msk lyr src =
     map (\<lambda>(b, ms, xs). layer_outfit lyr train rho b ms xs) (enumerate 0 (zip msk src))"

definition attention_stack ::
  "encoder_layer list \<Rightarrow> nat \<Rightarrow> bool \<Rightarrow> (nat \<Rightarrow> bool) \<Rightarrow> tensor3 \<Rightarrow> mask \<Rightarrow> error + tensor3" where
  "attention_stack layers d_model train rho src msk =
     (if length src = length msk
         \<and> (\<forall>(xs, ms) \<in> set (zip src msk). length xs = length ms)
         \<and> (\<forall>xs \<in> set src. \<forall>v \<in> set xs. length v = d_model)
      then Inr (fold (layer_batch train rho msk) layers src)
      else Inl RuntimeError)"

text \<open>
  Two sequences agree under a mask when they have the length of the mask and are equal
  at every position whose mask entry is \<open>False\<close>; two batches agree when their
  sequences do.
\<close>

fun agree_unmasked :: "bool list \<Rightarrow> 'a list \<Rightarrow> 'a list \<Rightarrow> bool" where
  "agree_unmasked [] [] [] \<longleftrightarrow> True"
| "agree_unmasked (m # ms) (x # xs) (y # ys) \<longleftrightarrow> (m \<or> x = y) \<and> agree_unmasked ms xs ys"
| "agree_unmasked _ _ _ \<longleftrightarrow> False"

definition agree_batch :: "mask \<Rightarrow> 'a list list \<Rightarrow> 'a list list \<Rightarrow> bool" where
  "agree_batch msk X Y \<longleftrightarrow>
     length X = length msk \<and> length Y = length msk
   \<and> (\<forall>b < length msk. agree_unmasked (msk ! b) (X ! b) (Y ! b))"

section \<open>The image encoder \<open>CLIPImageEncoder\<close>\<close>

text \<open>
  \<open>CLIPVisionModelWithProjection\<close> and \<open>CLIPImageProcessor\<close> are the
  transformers library's; the encoder holds one of each. The processor turns the images
  and its keyword arguments into pixel values or rejects them. The vision model is a
  torch module: it maps its mode, the draws of its dropout layers and the pixel values
  to the image embeddings. \<open>model_training\<close> is \<open>self.model.training\<close>, and
  \<open>model_frozen\<close> says whether \<open>freeze_model\<close> was applied.
\<close>

type_synonym processor_kargs = "string \<rightharpoonup> string"

record clip_image_encoder =
  model :: "bool \<Rightarrow> (nat \<Rightarrow> bool) \<Rightarrow> tensor2 \<Rightarrow> tensor2"
  model_training :: bool
  model_frozen :: bool
  processor :: "image list \<Rightarrow> processor_kargs \<Rightarrow> error + tensor2"

text \<open>
  The constructor loads the pretrained model and processor (its two first arguments
  here), puts the model in evaluation mode and freezes it on request.
\<close>

definition CLIPImageEncoder_init ::
  "(bool \<Rightarrow> (nat \<Rightarrow> bool) \<Rightarrow> tensor2 \<Rightarrow> tensor2) \<Rightarrow> (image list \<Rightarrow> processor_kargs \<Rightarrow> error + tensor2)
     \<Rightarrow> bool \<Rightarrow> clip_image_encoder" where
  "CLIPImageEncoder_init pretrained_model pretrained_processor freeze =
     \<lparr>model = pretrained_model,
      model_training = False,
      model_frozen = freeze,
      processor = pretrained_processor\<rparr>"

text \<open>
  \<open>_forward\<close> returns the image embeddings together with the keyword-argument
  dictionary after the call: the source writes \<open>return_tensors\<close> into the
  dictionary it is given. \<open>torch.no_grad\<close> and the move to the device change no
  value.
\<close>

definition CLIPImageEncoder_forward ::
  "clip_image_encoder \<Rightarrow> (nat \<Rightarrow> bool) \<Rightarrow> image list \<Rightarrow> processor_kargs option
     \<Rightarrow> (error + tensor2) \<times> processor_kargs" where
  "CLIPImageEncoder_forward self rho imgs processor_kargs =
     (let processor_kargs = (case processor_kargs of None \<Rightarrow> Map.empty | Some k \<Rightarrow> k);
          processor_kargs = processor_kargs(''return_tensors'' \<mapsto> ''pt'')
      in (bind_err (processor self imgs processor_kargs)
            (\<lambda>transformed_images.
               Inr (model self (model_training self) rho transformed_images)),
          processor_kargs))"

section \<open>The model \<open>OutfitX\<close>\<close>

text \<open>
  Modelled from the spec: \<open>ItemEncoder\<close> (\<open>src/models/encoders\<close>) is not a
  file of the repository. The spec (6) gives it as the capability
  \<open>encode(images, texts) \<rightarrow> embeddings[B, L, D]\<close>, "deterministic given frozen
  weights", that "must reject malformed modality inputs". It is a submodule of the
  model, so it runs in the model's mode and may hold dropout layers: it is the field
  \<open>item_encoder\<close>, a function from the mode, the draws its dropout layers consume
  and the images and texts of a batch to the embeddings or an error, and
  \<open>item_encoder_d_embed\<close> is its \<open>d_embed\<close>.
\<close>

text \<open>
  The other fields are what the constructor stores. \<open>cp_ffn\<close> is
  \<open>Sequential(Dropout(p), Linear(d_embed, 1))\<close>, so it has a weight [1, d_embed]
  and a bias [1]; \<open>cir_ffn\<close> is
  \<open>Sequential(Linear(d_embed, cfg.d_embed, bias=False))\<close>, so it has a weight
  [cfg.d_embed, d_embed] and no bias. \<open>cfg_d_embed\<close> is \<open>cfg.d_embed\<close> of the
  configuration, whose file is not in the repository either.
\<close>

record encoder_input =
  images :: "image list list"
  texts :: "string list list"

record outfit_x =
  item_encoder :: "bool \<Rightarrow> (nat \<Rightarrow> bool) \<Rightarrow> image list list \<Rightarrow> string list list \<Rightarrow> error + tensor3"
  item_encoder_d_embed :: nat
  cfg_d_embed :: nat
  transformer_encoder :: "encoder_layer list"
  outfit_token :: vec
  cp_ffn_p :: real
  cp_ffn_weight :: "real list list"
  cp_ffn_bias :: "real list"
  cir_ffn_weight :: "real list list"
  target_item_image_emb :: vec
  training :: bool

text \<open>The shapes the constructor gives the parameters.\<close>

definition constructed :: "outfit_x \<Rightarrow> bool" where
  "constructed m \<longleftrightarrow>
     length (outfit_token m) = item_encoder_d_embed m
   \<and> length (target_item_image_emb m) = item_encoder_d_embed m div 2
   \<and> shape2 1 (item_encoder_d_embed m) (cp_ffn_weight m)
   \<and> length (cp_ffn_bias m) = 1
   \<and> shape2 (cfg_d_embed m) (item_encoder_d_embed m) (cir_ffn_weight m)
   \<and> (\<forall>lyr \<in> set (transformer_encoder m). \<forall>train rho b i x vis.
        length x = item_encoder_d_embed m \<longrightarrow>
        (\<forall>v \<in> set vis. length v = item_encoder_d_embed m) \<longrightarrow>
        length (lyr train rho b i x vis) = item_encoder_d_embed m)"

definition cp_ffn :: "outfit_x \<Rightarrow> draws \<Rightarrow> tensor2 \<Rightarrow> error + tensor2" where
  "cp_ffn m rho x =
     linear (cp_ffn_weight m) (Some (cp_ffn_bias m))
       (dropout (cp_ffn_p m) (training m) (cp_keep rho) x)"

definition cir_ffn :: "outfit_x \<Rightarrow> tensor2 \<Rightarrow> error + tensor2" where
  "cir_ffn m x = linear (cir_ffn_weight m) None x"

definition run_transformer_encoder :: "outfit_x \<Rightarrow> draws \<Rightarrow> tensor3 \<Rightarrow> mask \<Rightarrow> error + tensor3" where
  "run_transformer_encoder m rho src msk =
     attention_stack (transformer_encoder m) (item_encoder_d_embed m) (training m)
       (encoder_draws rho) src msk"

text \<open>The locals of \<open>_cp_forward\<close>, in the order the source computes them.\<close>

definition cp_outfit_embedding ::
  "outfit_x \<Rightarrow> draws \<Rightarrow> tensor3 \<Rightarrow> encoder_input option \<Rightarrow> error + tensor3" where
  "cp_outfit_embedding m rho outfit_embedding encoder_input_dict =
     (case encoder_input_dict of
        None \<Rightarrow> Inr outfit_embedding
      | Some d \<Rightarrow> item_encoder m (training m) (item_draws rho) (images d) (texts d))"

definition cp_transformer_inputs :: "outfit_x \<Rightarrow> tensor3 \<Rightarrow> error + tensor3" where
  "cp_transformer_inputs m outfit_embedding =
     torch_cat3_dim1 (replicate (length outfit_embedding) [outfit_token m]) outfit_embedding"

definition prefixed_mask :: "nat \<Rightarrow> mask \<Rightarrow> error + mask" where
  "prefixed_mask B outfit_mask = torch_cat_dim1 (replicate B [False]) outfit_mask"

definition cp_outfit_token_states :: "outfit_x \<Rightarrow> draws \<Rightarrow> tensor3 \<Rightarrow> mask \<Rightarrow> error + tensor2" where
  "cp_outfit_token_states m rho outfit_embedding outfit_mask =
     bind_err (cp_transformer_inputs m outfit_embedding) (\<lambda>transformer_inputs.
     bind_err (prefixed_mask (length outfit_embedding) outfit_mask) (\<lambda>msk.
     bind_err (run_transformer_encoder m rho transformer_inputs msk) (\<lambda>transformer_outputs.
     select_position0 transformer_outputs)))"

definition cp_forward ::
  "outfit_x \<Rightarrow> draws \<Rightarrow> tensor3 \<Rightarrow> mask \<Rightarrow> encoder_input option \<Rightarrow> error + tensor2" where
  "cp_forward m rho outfit_embedding outfit_mask encoder_input_dict =
     bind_err (cp_outfit_embedding m rho outfit_embedding encoder_input_dict) (\<lambda>outfit_embedding.
     bind_err (cp_outfit_token_states m rho outfit_embedding outfit_mask) (\<lambda>outfit_token_states.
     cp_ffn m rho outfit_token_states))"

text \<open>The locals of \<open>_cir_forward\<close>.\<close>

definition target_items_embedding :: "outfit_x \<Rightarrow> nat \<Rightarrow> tensor2 \<Rightarrow> error + tensor3" where
  "target_items_embedding m B target_item_text_embedding =
     bind_err (torch_cat_dim1 (replicate B (target_item_image_emb m)) target_item_text_embedding)
       (\<lambda>e. Inr (map (\<lambda>v. [v]) e))"

definition cir_embeddings :: "outfit_x \<Rightarrow> tensor3 \<Rightarrow> tensor2 \<Rightarrow> error + tensor3" where
  "cir_embeddings m outfit_embedding target_item_text_embedding =
     bind_err (target_items_embedding m (length outfit_embedding) target_item_text_embedding)
       (\<lambda>t. torch_cat3_dim1 t outfit_embedding)"

definition cir_target_item_token_states ::
  "outfit_x \<Rightarrow> draws \<Rightarrow> tensor3 \<Rightarrow> mask \<Rightarrow> tensor2 \<Rightarrow> error + tensor2" where
  "cir_target_item_token_states m rho outfit_embedding outfit_mask target_item_text_embedding =
     bind_err (cir_embeddings m outfit_embedding target_item_text_embedding) (\<lambda>embeddings.
     bind_err (prefixed_mask (length outfit_embedding) outfit_mask) (\<lambda>msk.
     bind_err (run_transformer_encoder m rho embeddings msk) (\<lambda>transformer_outputs.
     select_position0 transformer_outputs)))"

definition cir_forward :: "outfit_x \<Rightarrow> draws \<Rightarrow> tensor3 \<Rightarrow> mask \<Rightarrow> tensor2 \<Rightarrow> error + tensor2" where
  "cir_forward m rho outfit_embedding outfit_mask target_item_text_embedding =
     bind_err (cir_target_item_token_states m rho outfit_embedding outfit_mask
                 target_item_text_embedding)
       (cir_ffn m)"

definition precompute_embeddings ::
  "outfit_x \<Rightarrow> draws \<Rightarrow> image list list \<Rightarrow> string list list \<Rightarrow> error + tensor2" where
  "precompute_embeddings m rho imgs txts =
     bind_err (item_encoder m (training m) (item_draws rho) imgs txts)
       (\<lambda>embeddings. select_position0 embeddings)"

subsection \<open>Dispatch\<close>

datatype handler = Handler_cp_forward | Handler_cir_forward | Handler_precompute_embeddings

datatype call_args =
    Args_cp tensor3 mask "encoder_input option"
  | Args_cir tensor3 mask tensor2
  | Args_precompute "image list list" "string list list"

definition forward_dict :: "task \<rightharpoonup> handler" where
  "forward_dict =
     [OutfitCompatibilityPredictionTask \<mapsto> Handler_cp_forward,
      OutfitComplementaryItemRetrievalTask \<mapsto> Handler_cir_forward,
      OutfitFillInTheBlankTask \<mapsto> Handler_cir_forward,
      OutfitPrecomputeEmbeddingTask \<mapsto> Handler_precompute_embeddings]"

text \<open>
  A bound method applied to \<open>*args, **kwargs\<close>: arguments that do not fit the
  handler's signature are a \<open>TypeError\<close>.
\<close>

fun call_handler :: "outfit_x \<Rightarrow> draws \<Rightarrow> handler \<Rightarrow> call_args \<Rightarrow> error + tensor2" where
  "call_handler m rho Handler_cp_forward (Args_cp e k d) = cp_forward m rho e k d"
| "call_handler m rho Handler_cir_forward (Args_cir e k t) = cir_forward m rho e k t"
| "call_handler m rho Handler_precompute_embeddings (Args_precompute i t) =
     precompute_embeddings m rho i t"
| "call_handler m rho _ _ = Inl TypeError"

text \<open>
  \<open>forward\<close> returns its result together with the model after the call, so that
  what a call does to the parameters can be stated.
\<close>

definition forward :: "outfit_x \<Rightarrow> draws \<Rightarrow> task \<Rightarrow> call_args \<Rightarrow> (error + tensor2) \<times> outfit_x" where
  "forward m rho t a =
     (case forward_dict t of
        None \<Rightarrow> (Inl (KeyError t), m)
      | Some h \<Rightarrow> (call_handler m rho h a, m))"

section \<open>The trainer \<open>FillInTheBlankTrainer\<close>\<close>

subsection \<open>\<open>test\<close>\<close>

text \<open>
  A batch of the test loader: the keyword arguments of the model call (the task tag
  among them), the candidates [B, 4, D] and the index of the right one [B].
\<close>

record batch =
  input_task :: task
  input_args :: call_args
  candidate_item_embedding :: tensor3
  answer_index :: "nat list"

definition euclidean :: "vec \<Rightarrow> vec \<Rightarrow> real" where
  "euclidean p q = sqrt (\<Sum>(a, b) \<leftarrow> zip p q. (a - b)\<^sup>2)"

text \<open>
  \<open>torch.cdist(x1, x2, p=2)\<close> of [B, P, D] and [B, R, D] is [B, P, R]
  (broadcasting a batch of size 1 is left out).
\<close>

definition cdist :: "tensor3 \<Rightarrow> tensor3 \<Rightarrow> error + tensor3" where
  "cdist x1 x2 =
     (if length x1 = length x2
         \<and> (\<forall>u \<in> set (concat x1). \<forall>v \<in> set (concat x2). length u = length v)
      then Inr (map2 (\<lambda>ps qs. map (\<lambda>p. map (euclidean p) qs) ps) x1 x2)
      else Inl RuntimeError)"

text \<open>
  \<open>torch.argmin\<close> along the last dimension: the index of the first minimal entry;
  a dimension of size 0 is an error.
\<close>

fun argmin_list :: "real list \<Rightarrow> nat" where
  "argmin_list [] = 0"
| "argmin_list [x] = 0"
| "argmin_list (x # y # ys) =
     (let k = argmin_list (y # ys) in if x \<le> (y # ys) ! k then 0 else Suc k)"

definition argmin :: "tensor2 \<Rightarrow> error + nat list" where
  "argmin dists = (if [] \<in> set dists then Inl IndexError else Inr (map argmin_list dists))"

text \<open>
  The body of the loop up to \<open>y_hats_index\<close>: the model call, \<open>unsqueeze(1)\<close>,
  the distances to the candidates of the batch, \<open>squeeze(1)\<close> and the argmin.
  \<open>autocast\<close> chooses the floating-point precision of the block and has no
  counterpart over the reals.
\<close>

definition y_hats_index :: "outfit_x \<Rightarrow> draws \<Rightarrow> batch \<Rightarrow> error + nat list" where
  "y_hats_index m rho batch_dict =
     bind_err (fst (forward m rho (input_task batch_dict) (input_args batch_dict))) (\<lambda>y_hats.
     bind_err (cdist (map (\<lambda>v. [v]) y_hats) (candidate_item_embedding batch_dict)) (\<lambda>d.
     argmin (map hd d)))"

text \<open>
  \<open>(y_hats_index == y_index).sum()\<close>, for two index vectors of the same length
  (broadcasting a vector of length 1 is left out).
\<close>

definition count_equal :: "nat list \<Rightarrow> nat list \<Rightarrow> error + nat" where
  "count_equal a b =
     (if length a = length b then Inr (length (filter (\<lambda>(i, j). i = j) (zip a b)))
      else Inl RuntimeError)"

fun test_loop ::
  "outfit_x \<Rightarrow> (nat \<Rightarrow> draws) \<Rightarrow> nat \<Rightarrow> batch list \<Rightarrow> nat \<Rightarrow> nat \<Rightarrow> error + nat \<times> nat" where
  "test_loop m rhos step [] n_total n_correct = Inr (n_total, n_correct)"
| "test_loop m rhos step (batch_dict # rest) n_total n_correct =
     bind_err (y_hats_index m (rhos step) batch_dict) (\<lambda>idx.
     bind_err (count_equal idx (answer_index batch_dict)) (\<lambda>c.
     test_loop m rhos (Suc step) rest (n_total + length idx) (n_correct + c)))"

text \<open>
  \<open>test\<close> puts the model in evaluation mode, runs the loop and divides; the
  accuracy is what it logs.
\<close>

definition test :: "outfit_x \<Rightarrow> (nat \<Rightarrow> draws) \<Rightarrow> batch list \<Rightarrow> error + real" where
  "test m rhos test_dataloader =
     bind_err (test_loop (m\<lparr>training := False\<rparr>) rhos 0 test_dataloader 0 0)
       (\<lambda>(n_total, n_correct).
          if n_total = 0 then Inl ZeroDivisionError else Inr (real n_correct / real n_total))"

subsection \<open>\<open>load_embeddings\<close>\<close>

text \<open>
  The directory \<open>cfg.precomputed_embedding_dir\<close> is a list of files, each a name and
  what \<open>pickle.load\<close> gives for it, a dictionary with the keys \<open>ids\<close> and
  \<open>embeddings\<close>. The function returns its result and the names of the files it
  opened, in the order it opened them.
\<close>

type_synonym item_id = nat

record shard =
  ids :: "item_id list"
  embeddings :: tensor2

text \<open>
  The pattern \<open>prefix*.pkl\<close>, for a prefix without a wildcard of its own.
\<close>

definition matches :: "string \<Rightarrow> string \<Rightarrow> bool" where
  "matches prefix name \<longleftrightarrow>
     length prefix + 4 \<le> length name
   \<and> take (length prefix) name = prefix
   \<and> drop (length name - 4) name = ''.pkl''"

definition glob_sorted :: "(string \<times> shard) list \<Rightarrow> string \<Rightarrow> (string \<times> shard) list" where
  "glob_sorted dir prefix = sort_key fst (filter (\<lambda>(name, data). matches prefix name) dir)"

fun read_files ::
  "(string \<times> shard) list \<Rightarrow> item_id list \<Rightarrow> tensor2 list \<Rightarrow> string list
     \<Rightarrow> item_id list \<times> tensor2 list \<times> string list" where
  "read_files [] all_ids all_embeddings opened = (all_ids, all_embeddings, opened)"
| "read_files ((name, data) # files) all_ids all_embeddings opened =
     read_files files (all_ids @ ids data) (all_embeddings @ [embeddings data])
       (opened @ [name])"

text \<open>\<open>np.concatenate(arrays, axis=0)\<close> wants rows of one length.\<close>

definition np_concatenate :: "tensor2 list \<Rightarrow> error + tensor2" where
  "np_concatenate arrays =
     (if arrays \<noteq> []
         \<and> (\<forall>u \<in> set (concat arrays). \<forall>v \<in> set (concat arrays). length u = length v)
      then Inr (concat arrays)
      else Inl (ValueError Concatenate_dimensions))"

text \<open>A dictionary comprehension over pairs: a later pair overwrites an earlier one.\<close>

definition dict_of :: "('k \<times> 'v) list \<Rightarrow> ('k \<rightharpoonup> 'v)" where
  "dict_of kvs = fold (\<lambda>(k, v) d. d(k \<mapsto> v)) kvs Map.empty"

definition load_embeddings ::
  "(string \<times> shard) list \<Rightarrow> string \<Rightarrow> (error + (item_id \<rightharpoonup> vec)) \<times> string list" where
  "load_embeddings dir embed_file_prefix =
     (let files = glob_sorted dir embed_file_prefix in
      if files = [] then (Inl (FileNotFoundError embed_file_prefix), [])
      else
        (case read_files files [] [] [] of (all_ids, all_embeddings, opened) \<Rightarrow>
           (bind_err (np_concatenate all_embeddings)
              (\<lambda>all_embeddings. Inr (dict_of (zip all_ids all_embeddings))),
            opened)))"

subsection \<open>\<open>hook_after_setup\<close>\<close>

text \<open>
  The fields of the trainer the hook reads and writes. \<open>load_checkpoint\<close> is the
  base class's, whose file is not in the repository; the model keeps the path it is
  called with.
\<close>

record trainer =
  world_size :: int
  run_mode :: string
  cuda_is_available :: bool
  device_type :: "string option"
  model_name :: string
  checkpoint_dir_parent :: string
  loaded_checkpoint :: "string option"

definition hook_after_setup :: "trainer \<Rightarrow> (error + unit) \<times> trainer" where
  "hook_after_setup t =
     (let t = t\<lparr>device_type := Some (if cuda_is_available t then ''cuda'' else ''cpu'')\<rparr> in
      if world_size t > 1 \<and> run_mode t = ''test''
      then (Inl (ValueError Test_mode_not_distributed), t)
      else if run_mode t = ''train-valid''
      then (Inr (), t\<lparr>loaded_checkpoint :=
              Some (checkpoint_dir_parent t @ ''/compatibility_prediction/''
                    @ model_name t @ ''_best_AUC.pth'')\<rparr>)
      else if run_mode t = ''test''
      then (Inr (), t\<lparr>loaded_checkpoint :=
              Some (checkpoint_dir_parent t @ ''/complementary_item_retrieval/''
                    @ model_name t @ ''_best_Recall@1.pth'')\<rparr>)
      else (Inl (ValueError Unknown_run_mode), t))"

text \<open>
  What runs after the hook runs only if the hook returns: an exception leaves the
  trainer as it is and skips the rest.
\<close>

definition and_then ::
  "(error + unit) \<times> 's \<Rightarrow> ('s \<Rightarrow> (error + 'a) \<times> 's) \<Rightarrow> (error + 'a) \<times> 's" where
  "and_then r k = (case r of (Inl e, s) \<Rightarrow> (Inl e, s) | (Inr u, s) \<Rightarrow> k s)"

section \<open>A small model and small inputs\<close>

definition example_layer :: encoder_layer where
  "example_layer train rho b i x vis = map (\<lambda>c. c + sum_list (map sum_list vis)) x"

definition example_model :: outfit_x where
  "example_model =
     \<lparr>item_encoder =
        (\<lambda>train rho imgs txts.
           Inr (map (map (\<lambda>p. [real (length p), if train \<and> rho 0 then 0 else 1])) imgs)),
      item_encoder_d_embed = 2,
      cfg_d_embed = 3,
      transformer_encoder = [example_layer],
      outfit_token = [1, 0],
      cp_ffn_p = 1 / 2,
      cp_ffn_weight = [[1, 2]],
      cp_ffn_bias = [- 10],
      cir_ffn_weight = [[1, 0], [0, 1], [1, 1]],
      target_item_image_emb = [3],
      training = False\<rparr>"

definition example_draws :: draws where
  "example_draws =
     \<lparr>item_draws = (\<lambda>n. True), encoder_draws = (\<lambda>n. True), cp_keep = (\<lambda>i j. even j)\<rparr>"


definition example_clip_model :: "bool \<Rightarrow> (nat \<Rightarrow> bool) \<Rightarrow> tensor2 \<Rightarrow> tensor2" where
  "example_clip_model train rho pixels =
     map (\<lambda>p. [sum_list p, if train \<and> rho 0 then 0 else 1]) pixels"

definition example_clip_processor :: "image list \<Rightarrow> processor_kargs \<Rightarrow> error + tensor2" where
  "example_clip_processor imgs kargs =
     (if kargs ''return_tensors'' = Some ''pt'' then Inr (map (map real) imgs)
      else Inl TypeError)"

definition example_batch :: batch where
  "example_batch =
     \<lparr>input_task = OutfitFillInTheBlankTask,
      input_args = Args_cir [[[1, 2], [3, 4]]] [[False, True]] [[5]],
      candidate_item_embedding = [[[0, 0, 0], [14, 16, 30], [14, 16, 31]]],
      answer_index = [1]\<rparr>"

definition example_dir :: "(string \<times> shard) list" where
  "example_dir =
     [(''e1.pkl'', \<lparr>ids = [7], embeddings = [[1, 1]]\<rparr>),
      (''notes.txt'', \<lparr>ids = [9], embeddings = [[5]]\<rparr>),
      (''e0.pkl'', \<lparr>ids = [4, 5], embeddings = [[0, 1], [1, 0]]\<rparr>)]"

definition example_trainer :: trainer where
  "example_trainer =
     \<lparr>world_size = 2,
      run_mode = ''test'',
      cuda_is_available = False,
      device_type = None,
      model_name = ''all-MiniLM-L6-v2'',
      checkpoint_dir_parent = ''checkpoints'',
      loaded_checkpoint = None\<rparr>"

section \<open>Task dispatch\<close>

lemma forward_dict_None_iff: "forward_dict t = None \<longleftrightarrow> (\<exists>name. t = OtherTask name)"
  by (cases t) (simp_all add: forward_dict_def)

text \<open>
  C1. Dispatching a task tag that is not a key of the dictionary \<open>forward_\<close> fails,
  and the model after the call is the model before it: no parameter (outfit token,
  target-item image placeholder, head weights, encoder weights) has changed. The
  failure is the \<open>KeyError\<close> of the dictionary lookup, which is what the spec's
  taxonomy names UnsupportedTaskError; by \<open>forward_dict_None_iff\<close> the tags
  without a handler are exactly those other than the four task classes.
\<close>

theorem forward_unregistered_task:
  assumes "forward_dict t = None"
  shows "fst (forward m rho t a) = Inl (KeyError t) \<and> snd (forward m rho t a) = m"
  using assms by (simp add: forward_def)

theorem forward_unregistered_task_witness:
  "fst (forward example_model example_draws (OtherTask ''FashionItem'') (Args_precompute [] []))
     = Inl (KeyError (OtherTask ''FashionItem''))
   \<and> snd (forward example_model example_draws (OtherTask ''FashionItem'') (Args_precompute [] []))
     = example_model"
  using forward_unregistered_task
    [of "OtherTask ''FashionItem''" example_model example_draws "Args_precompute [] []"]
  by (simp add: forward_dict_def)

section \<open>Evaluating the small model\<close>

lemmas model_defs =
  cp_forward_def cp_outfit_embedding_def cp_outfit_token_states_def cp_transformer_inputs_def
  cir_forward_def cir_target_item_token_states_def cir_embeddings_def target_items_embedding_def
  precompute_embeddings_def
  torch_cat3_dim1_def torch_cat_dim1_def prefixed_mask_def run_transformer_encoder_def
  attention_stack_def layer_batch_def layer_outfit_def visible_def select_position0_def
  cp_ffn_def cir_ffn_def linear_def dropout_def dot_def bind_err_def
  example_model_def example_layer_def example_draws_def

lemma ex_cp: "cp_forward example_model example_draws [[[1, 2], [3, 4]]] [[False, True]] None = Inr [[3]]"
  by (simp add: model_defs)

lemma ex_cir: "cir_forward example_model example_draws [[[1, 2], [3, 4]]] [[False, True]] [[5]] = Inr [[14, 16, 30]]"
  by (simp add: model_defs)

section \<open>Padded positions and the pooling position\<close>

lemma agree_unmasked_length:
  "agree_unmasked ms xs ys \<Longrightarrow> length xs = length ms \<and> length ys = length ms"
  by (induction ms xs ys rule: agree_unmasked.induct) auto

lemma agree_unmasked_visible:
  "agree_unmasked ms xs ys \<Longrightarrow> visible ms xs = visible ms ys"
  by (induction ms xs ys rule: agree_unmasked.induct) (auto simp: visible_def)

lemma agree_unmasked_nth:
  "agree_unmasked ms xs ys \<Longrightarrow> i < length ms \<Longrightarrow> \<not> ms ! i \<Longrightarrow> xs ! i = ys ! i"
  by (induction ms xs ys arbitrary: i rule: agree_unmasked.induct) (auto simp: nth_Cons split: nat.splits)

lemma agree_unmasked_from_nth:
  "length xs = length ms \<Longrightarrow> length ys = length ms \<Longrightarrow>
   (\<forall>i < length ms. \<not> ms ! i \<longrightarrow> xs ! i = ys ! i) \<Longrightarrow> agree_unmasked ms xs ys"
proof (induction ms arbitrary: xs ys)
  case Nil
  then show ?case by simp
next
  case (Cons m ms)
  then obtain x xs' y ys' where xs: "xs = x # xs'" and ys: "ys = y # ys'"
    by (metis length_Suc_conv)
  have head: "m \<or> x = y"
    using Cons.prems(3) xs ys by auto
  have "\<forall>i < length ms. \<not> ms ! i \<longrightarrow> xs' ! i = ys' ! i"
    using Cons.prems(3) xs ys by auto
  then have "agree_unmasked ms xs' ys'"
    using Cons.IH Cons.prems(1,2) xs ys by simp
  with head xs ys show ?case by simp
qed

lemma agree_unmasked_map_enumerate:
  "agree_unmasked ms xs ys \<Longrightarrow>
   agree_unmasked ms (map (\<lambda>(i, x). f i x) (enumerate n xs)) (map (\<lambda>(i, y). f i y) (enumerate n ys))"
  by (induction ms xs ys arbitrary: n rule: agree_unmasked.induct) auto

lemma agree_unmasked_layer_outfit:
  assumes "agree_unmasked ms xs ys"
  shows "agree_unmasked ms (layer_outfit lyr train rho b ms xs) (layer_outfit lyr train rho b ms ys)"
  unfolding layer_outfit_def agree_unmasked_visible [OF assms]
  using assms by (rule agree_unmasked_map_enumerate)

lemma layer_batch_nth:
  "length X = length msk \<Longrightarrow> b < length msk \<Longrightarrow>
   layer_batch train rho msk lyr X ! b = layer_outfit lyr train rho b (msk ! b) (X ! b)"
  by (simp add: layer_batch_def nth_enumerate_eq)

lemma layer_batch_length:
  "length X = length msk \<Longrightarrow> length (layer_batch train rho msk lyr X) = length msk"
  by (simp add: layer_batch_def)

lemma agree_batch_layer:
  assumes "agree_batch msk X Y"
  shows "agree_batch msk (layer_batch train rho msk lyr X) (layer_batch train rho msk lyr Y)"
  using assms
  by (simp add: agree_batch_def layer_batch_length layer_batch_nth agree_unmasked_layer_outfit)

lemma agree_batch_fold:
  "agree_batch msk X Y \<Longrightarrow>
   agree_batch msk (fold (layer_batch train rho msk) layers X) (fold (layer_batch train rho msk) layers Y)"
  by (induction layers arbitrary: X Y) (auto intro: agree_batch_layer)

lemma agree_batch_select_position0:
  assumes "agree_batch msk X Y" and "\<forall>ms \<in> set msk. ms \<noteq> [] \<and> \<not> hd ms"
  shows "select_position0 X = select_position0 Y"
proof -
  have len: "length X = length msk" "length Y = length msk"
    using assms(1) by (simp_all add: agree_batch_def)
  have each: "X ! b \<noteq> [] \<and> Y ! b \<noteq> [] \<and> hd (X ! b) = hd (Y ! b)" if "b < length msk" for b
  proof -
    have a: "agree_unmasked (msk ! b) (X ! b) (Y ! b)"
      using assms(1) that by (simp add: agree_batch_def)
    have m: "msk ! b \<noteq> [] \<and> \<not> hd (msk ! b)"
      using assms(2) that by simp
    then have "0 < length (msk ! b)" "\<not> (msk ! b) ! 0"
      by (cases "msk ! b"; simp)+
    with agree_unmasked_length [OF a] agree_unmasked_nth [OF a, of 0]
    show ?thesis by (cases "X ! b"; cases "Y ! b"; simp)
  qed
  have nx: "[] \<notin> set X"
  proof
    assume "[] \<in> set X"
    then obtain b where "b < length X" "X ! b = []" by (auto simp: in_set_conv_nth)
    with each [of b] len show False by simp
  qed
  have ny: "[] \<notin> set Y"
  proof
    assume "[] \<in> set Y"
    then obtain b where "b < length Y" "Y ! b = []" by (auto simp: in_set_conv_nth)
    with each [of b] len show False by simp
  qed
  have "map hd X = map hd Y"
  proof (rule nth_equalityI)
    show "length (map hd X) = length (map hd Y)" by (simp add: len)
  next
    fix i assume "i < length (map hd X)"
    then have i: "i < length msk" by (simp add: len)
    from each [OF i] i show "map hd X ! i = map hd Y ! i" by (simp add: len)
  qed
  with nx ny show ?thesis by (simp add: select_position0_def)
qed


lemma agree_batch_zip_lengths:
  assumes "agree_batch msk X Y"
  shows "\<forall>(xs, ms) \<in> set (zip X msk). length xs = length ms"
proof -
  have "length xs = length ms" if "(xs, ms) \<in> set (zip X msk)" for xs ms
  proof -
    from that obtain b where b: "b < length msk" "xs = X ! b" "ms = msk ! b"
      by (auto simp: set_zip)
    then have "agree_unmasked ms xs (Y ! b)"
      using assms by (simp add: agree_batch_def)
    then show ?thesis by (simp add: agree_unmasked_length)
  qed
  then show ?thesis by auto
qed

lemma agree_batch_sym: "agree_batch msk X Y \<Longrightarrow> agree_batch msk Y X"
proof -
  have s: "agree_unmasked ms xs ys \<Longrightarrow> agree_unmasked ms ys xs" for ms and xs ys :: "'a list"
    by (induction ms xs ys rule: agree_unmasked.induct) auto
  show "agree_batch msk X Y \<Longrightarrow> agree_batch msk Y X"
    by (auto simp: agree_batch_def intro: s)
qed

lemma attention_stack_agree:
  assumes a: "agree_batch msk X Y"
    and v: "length ` set (concat X) = length ` set (concat Y)"
    and p: "\<forall>ms \<in> set msk. ms \<noteq> [] \<and> \<not> hd ms"
  shows "bind_err (attention_stack layers d train rho X msk) select_position0
       = bind_err (attention_stack layers d train rho Y msk) select_position0"
proof -
  have lx: "length X = length msk" and ly: "length Y = length msk"
    using a by (simp_all add: agree_batch_def)
  have zx: "\<forall>(xs, ms) \<in> set (zip X msk). length xs = length ms"
    using a by (rule agree_batch_zip_lengths)
  have zy: "\<forall>(xs, ms) \<in> set (zip Y msk). length xs = length ms"
    using agree_batch_sym [OF a] by (rule agree_batch_zip_lengths)
  have dims: "(\<forall>xs \<in> set Z. \<forall>v \<in> set xs. length v = d) \<longleftrightarrow> (\<forall>n \<in> length ` set (concat Z). n = d)"
    for Z :: tensor3
    by auto
  have g: "(\<forall>xs \<in> set X. \<forall>v \<in> set xs. length v = d) \<longleftrightarrow> (\<forall>xs \<in> set Y. \<forall>v \<in> set xs. length v = d)"
    unfolding dims v ..
  have sel: "select_position0 (fold (layer_batch train rho msk) layers X)
           = select_position0 (fold (layer_batch train rho msk) layers Y)"
    using agree_batch_fold [OF a] p by (rule agree_batch_select_position0)
  show ?thesis
    using lx ly zx zy g sel by (simp add: attention_stack_def bind_err_def)
qed

lemma shape3_vector_lengths:
  assumes "shape3 B L D e"
  shows "length ` set (concat e) = (if B = 0 \<or> L = 0 then {} else {D})"
proof (cases "B = 0 \<or> L = 0")
  case True
  then have "concat e = []"
    using assms by (auto simp: shape3_def shape2_def)
  with True show ?thesis by simp
next
  case False
  then obtain s where s: "s \<in> set e"
    using assms by (cases e) (auto simp: shape3_def)
  then have "length s = L" using assms by (auto simp: shape3_def shape2_def)
  with False obtain v where "v \<in> set s" by (cases s) auto
  with s have "D \<in> length ` set (concat e)"
    using assms by (force simp: shape3_def shape2_def)
  moreover have "length ` set (concat e) \<subseteq> {D}"
    using assms by (auto simp: shape3_def shape2_def)
  ultimately show ?thesis using False by auto
qed

lemma concat_map2_append:
  "length P = length e \<Longrightarrow> set (concat (map2 (@) P e)) = set (concat P) \<union> set (concat e)"
proof (induction P arbitrary: e)
  case Nil
  then show ?case by simp
next
  case (Cons p P)
  then obtain x e' where "e = x # e'" by (cases e) auto
  with Cons show ?case by auto
qed

lemma pooled_states_agree:
  assumes e1: "shape3 B L D e1" and e2: "shape3 B L D e2" and k: "shape2 B L k"
    and eq: "\<forall>b < B. \<forall>i < L. \<not> k ! b ! i \<longrightarrow> e1 ! b ! i = e2 ! b ! i"
    and P: "length P = B" "\<forall>p \<in> set P. length p = 1"
  shows "bind_err (torch_cat3_dim1 P e1) (\<lambda>X.
           bind_err (prefixed_mask (length e1) k) (\<lambda>M.
           bind_err (run_transformer_encoder m rho X M) select_position0))
       = bind_err (torch_cat3_dim1 P e2) (\<lambda>X.
           bind_err (prefixed_mask (length e2) k) (\<lambda>M.
           bind_err (run_transformer_encoder m rho X M) select_position0))"
proof -
  have l1: "length e1 = B" and l2: "length e2 = B" and lk: "length k = B"
    using e1 e2 k by (simp_all add: shape3_def shape2_def)
  have vl: "length ` set (concat e1) = length ` set (concat e2)"
    by (simp only: shape3_vector_lengths [OF e1] shape3_vector_lengths [OF e2])
  have gd: "(\<forall>u \<in> set (concat P). \<forall>v \<in> set (concat e). length u = length v)
        \<longleftrightarrow> (\<forall>u \<in> set (concat P). \<forall>n \<in> length ` set (concat e). length u = n)" for e :: tensor3
    by auto
  have guard: "(\<forall>u \<in> set (concat P). \<forall>v \<in> set (concat e1). length u = length v)
           \<longleftrightarrow> (\<forall>u \<in> set (concat P). \<forall>v \<in> set (concat e2). length u = length v)"
    unfolding gd vl ..
  define M where "M = map2 (@) (replicate B [False]) k"
  define X1 where "X1 = map2 (@) P e1"
  define X2 where "X2 = map2 (@) P e2"
  have pm: "prefixed_mask B k = Inr M"
    by (simp add: prefixed_mask_def torch_cat_dim1_def lk M_def)
  have Mb: "M ! b = False # k ! b" if "b < B" for b
    using that lk by (simp add: M_def)
  have lM: "length M = B" by (simp add: M_def lk)
  have Pb: "\<exists>p. P ! b = [p]" if "b < B" for b
  proof -
    have "length (P ! b) = 1" using P that by simp
    then show ?thesis by (cases "P ! b") auto
  qed
  have ag: "agree_unmasked (k ! b) (e1 ! b) (e2 ! b)" if "b < B" for b
  proof (rule agree_unmasked_from_nth)
    have "k ! b \<in> set k" "e1 ! b \<in> set e1" "e2 ! b \<in> set e2"
      using that lk l1 l2 by simp_all
    then have len: "length (k ! b) = L" "length (e1 ! b) = L" "length (e2 ! b) = L"
      using e1 e2 k by (auto simp: shape3_def shape2_def)
    show "length (e1 ! b) = length (k ! b)" "length (e2 ! b) = length (k ! b)"
      using len by simp_all
    show "\<forall>i < length (k ! b). \<not> k ! b ! i \<longrightarrow> e1 ! b ! i = e2 ! b ! i"
      using eq that len by simp
  qed
  have ab: "agree_batch M X1 X2"
    unfolding agree_batch_def
  proof (intro conjI allI impI)
    show "length X1 = length M" by (simp add: X1_def lM P l1)
    show "length X2 = length M" by (simp add: X2_def lM P l2)
    fix b assume "b < length M"
    then have b: "b < B" by (simp add: lM)
    from Pb [OF b] obtain p where p: "P ! b = [p]" ..
    show "agree_unmasked (M ! b) (X1 ! b) (X2 ! b)"
      using b p ag [OF b] by (simp add: Mb X1_def X2_def P l1 l2)
  qed
  have c1: "set (concat X1) = set (concat P) \<union> set (concat e1)"
    unfolding X1_def by (rule concat_map2_append) (simp add: P l1)
  have c2: "set (concat X2) = set (concat P) \<union> set (concat e2)"
    unfolding X2_def by (rule concat_map2_append) (simp add: P l2)
  have vs: "length ` set (concat X1) = length ` set (concat X2)"
    by (simp only: c1 c2 image_Un vl)
  have pos0: "\<forall>ms \<in> set M. ms \<noteq> [] \<and> \<not> hd ms"
  proof
    fix ms assume "ms \<in> set M"
    then obtain b where "b < length M" "ms = M ! b" by (auto simp: in_set_conv_nth)
    then show "ms \<noteq> [] \<and> \<not> hd ms" by (simp add: lM Mb)
  qed
  have main: "bind_err (run_transformer_encoder m rho X1 M) select_position0
            = bind_err (run_transformer_encoder m rho X2 M) select_position0"
    unfolding run_transformer_encoder_def using ab vs pos0 by (rule attention_stack_agree)
  have cat: "torch_cat_dim1 P e1 = Inr X1" "torch_cat_dim1 P e2 = Inr X2"
    by (simp_all add: torch_cat_dim1_def P l1 l2 X1_def X2_def)
  show ?thesis
  proof (cases "\<forall>u \<in> set (concat P). \<forall>v \<in> set (concat e1). length u = length v")
    case True
    then have t2: "\<forall>u \<in> set (concat P). \<forall>v \<in> set (concat e2). length u = length v"
      using guard by blast
    have "torch_cat3_dim1 P e1 = Inr X1"
      unfolding torch_cat3_dim1_def cat(1) using True by (rule if_P)
    moreover have "torch_cat3_dim1 P e2 = Inr X2"
      unfolding torch_cat3_dim1_def cat(2) using t2 by (rule if_P)
    ultimately show ?thesis using main by (simp add: bind_err_def l1 l2 pm)
  next
    case False
    then have f2: "\<not> (\<forall>u \<in> set (concat P). \<forall>v \<in> set (concat e2). length u = length v)"
      using guard by blast
    have "torch_cat3_dim1 P e1 = Inl RuntimeError"
      unfolding torch_cat3_dim1_def using False by (rule if_not_P)
    moreover have "torch_cat3_dim1 P e2 = Inl RuntimeError"
      unfolding torch_cat3_dim1_def using f2 by (rule if_not_P)
    ultimately show ?thesis by (simp add: bind_err_def)
  qed
qed

text \<open>
  C2. Two outfit-embedding inputs of one shape that are equal at every position whose
  mask entry is \<open>False\<close> give, for the same mask, model and draws, the same state
  at the pooling position 0, and so the same CP score and the same CIR target
  embedding (or the same error). The statement rests on the attention stack as the
  spec describes it, a masked position being no key of any layer, and on real
  arithmetic: a floating-point NaN at a padded position is outside the model.
\<close>

theorem padded_content_does_not_reach_position0:
  assumes "shape3 B L D e1" and "shape3 B L D e2" and "shape2 B L k"
    and "\<forall>b < B. \<forall>i < L. \<not> k ! b ! i \<longrightarrow> e1 ! b ! i = e2 ! b ! i"
  shows "cp_outfit_token_states m rho e1 k = cp_outfit_token_states m rho e2 k
       \<and> cp_forward m rho e1 k None = cp_forward m rho e2 k None
       \<and> cir_target_item_token_states m rho e1 k t = cir_target_item_token_states m rho e2 k t
       \<and> cir_forward m rho e1 k t = cir_forward m rho e2 k t"
proof -
  have l1: "length e1 = B" and l2: "length e2 = B"
    using assms by (simp_all add: shape3_def)
  have cp: "cp_outfit_token_states m rho e1 k = cp_outfit_token_states m rho e2 k"
    using pooled_states_agree [OF assms, of "replicate B [outfit_token m]" m rho]
    by (simp add: cp_outfit_token_states_def cp_transformer_inputs_def l1 l2)
  have cir: "cir_target_item_token_states m rho e1 k t = cir_target_item_token_states m rho e2 k t"
  proof (cases "target_items_embedding m B t")
    case (Inl err)
    then show ?thesis
      by (simp add: cir_target_item_token_states_def cir_embeddings_def l1 l2 bind_err_def)
  next
    case (Inr P)
    then have P: "length P = B" "\<forall>p \<in> set P. length p = 1"
      by (auto simp: target_items_embedding_def torch_cat_dim1_def bind_err_def split: if_splits)
    show ?thesis
      using pooled_states_agree [OF assms P, of m rho] Inr
      by (simp add: cir_target_item_token_states_def cir_embeddings_def l1 l2 bind_err_def)
  qed
  show ?thesis
    using cp cir by (simp add: cp_forward_def cp_outfit_embedding_def cir_forward_def bind_err_def)
qed

theorem padded_content_does_not_reach_position0_witness:
  "cp_forward example_model example_draws [[[1, 2], [3, 4]]] [[False, True]] None
     = cp_forward example_model example_draws [[[1, 2], [9, 9]]] [[False, True]] None
   \<and> cir_forward example_model example_draws [[[1, 2], [3, 4]]] [[False, True]] [[5]]
     = cir_forward example_model example_draws [[[1, 2], [9, 9]]] [[False, True]] [[5]]
   \<and> cp_forward example_model example_draws [[[1, 2], [3, 4]]] [[False, True]] None = Inr [[3]]
   \<and> cir_forward example_model example_draws [[[1, 2], [3, 4]]] [[False, True]] [[5]]
     = Inr [[14, 16, 30]]"
proof -
  have s1: "shape3 1 2 2 [[[1, 2], [3, 4 :: real]]]" and s2: "shape3 1 2 2 [[[1, 2], [9, 9 :: real]]]"
    and s3: "shape2 1 2 [[False, True]]"
    by (simp_all add: shape3_def shape2_def)
  have h: "\<forall>b < 1. \<forall>i < 2. \<not> [[False, True]] ! b ! i
             \<longrightarrow> [[[1, 2], [3, 4 :: real]]] ! b ! i = [[[1, 2], [9, 9]]] ! b ! i"
    by (simp add: less_Suc_eq numeral_2_eq_2)
  show ?thesis
    using padded_content_does_not_reach_position0 [OF s1 s2 s3 h, of example_model example_draws "[[5]]"]
    by (simp add: ex_cp ex_cir)
qed

section \<open>Shapes along the forward paths\<close>

lemma layer_batch_shape:
  assumes X: "shape3 B N D X" and M: "shape2 B N M"
    and lyr: "\<forall>train rho b i x vis. length x = D \<longrightarrow> (\<forall>v \<in> set vis. length v = D)
                \<longrightarrow> length (lyr train rho b i x vis) = D"
  shows "shape3 B N D (layer_batch train rho M lyr X)"
proof -
  have lX: "length X = B" and lM: "length M = B"
    using X M by (simp_all add: shape3_def shape2_def)
  have row: "shape2 N D (layer_outfit lyr train rho b ms xs)" if "shape2 N D xs" for b ms xs
  proof -
    have vis: "\<forall>v \<in> set (visible ms xs). length v = D"
      using that by (auto simp: visible_def shape2_def dest: set_zip_rightD)
    have "length (lyr train rho b i x (visible ms xs)) = D" if "x \<in> set xs" for i x
      using lyr vis that \<open>shape2 N D xs\<close> by (simp add: shape2_def)
    then show ?thesis
      using that by (auto simp: layer_outfit_def shape2_def in_set_enumerate_eq)
  qed
  have "shape2 N D s" if "s \<in> set (layer_batch train rho M lyr X)" for s
  proof -
    from that obtain b ms xs where "s = layer_outfit lyr train rho b ms xs" "xs \<in> set X"
      by (auto simp: layer_batch_def in_set_enumerate_eq dest: set_zip_rightD)
    then show ?thesis using row X by (simp add: shape3_def)
  qed
  then show ?thesis
    by (simp add: shape3_def layer_batch_length lX lM)
qed

lemma fold_layer_batch_shape:
  assumes "shape3 B N D X" and "shape2 B N M"
    and "\<forall>lyr \<in> set layers. \<forall>train rho b i x vis. length x = D \<longrightarrow>
           (\<forall>v \<in> set vis. length v = D) \<longrightarrow> length (lyr train rho b i x vis) = D"
  shows "shape3 B N D (fold (layer_batch train rho M) layers X)"
  using assms
proof (induction layers arbitrary: X)
  case Nil
  then show ?case by simp
next
  case (Cons lyr layers)
  have "shape3 B N D (layer_batch train rho M lyr X)"
    using Cons.prems by (intro layer_batch_shape) simp_all
  then show ?case using Cons by simp
qed

lemma attention_stack_shape:
  assumes X: "shape3 B N D X" and M: "shape2 B N M"
    and lyr: "\<forall>lyr \<in> set layers. \<forall>train rho b i x vis. length x = D \<longrightarrow>
           (\<forall>v \<in> set vis. length v = D) \<longrightarrow> length (lyr train rho b i x vis) = D"
  shows "attention_stack layers D train rho X M = Inr (fold (layer_batch train rho M) layers X)
       \<and> shape3 B N D (fold (layer_batch train rho M) layers X)"
proof -
  have "length X = length M"
    using X M by (simp add: shape3_def shape2_def)
  moreover have "\<forall>(xs, ms) \<in> set (zip X M). length xs = length ms"
  proof -
    have "length xs = length ms" if "(xs, ms) \<in> set (zip X M)" for xs ms
    proof -
      have "xs \<in> set X" "ms \<in> set M"
        using that by (auto dest: set_zip_leftD set_zip_rightD)
      then show ?thesis using X M by (simp add: shape3_def shape2_def)
    qed
    then show ?thesis by auto
  qed
  moreover have "\<forall>xs \<in> set X. \<forall>v \<in> set xs. length v = D"
    using X by (auto simp: shape3_def shape2_def)
  ultimately show ?thesis
    using fold_layer_batch_shape [OF assms] by (simp add: attention_stack_def)
qed

lemma select_position0_shape:
  assumes "shape3 B (Suc N) D Y"
  shows "select_position0 Y = Inr (map hd Y) \<and> shape2 B D (map hd Y)"
proof -
  have "[] \<notin> set Y"
    using assms by (auto simp: shape3_def shape2_def)
  moreover have "length (hd s) = D" if "s \<in> set Y" for s
    using assms that by (cases s) (auto simp: shape3_def shape2_def)
  ultimately show ?thesis
    using assms by (simp add: select_position0_def shape3_def shape2_def)
qed


lemma prefixed_mask_shape:
  assumes "shape2 B L k"
  shows "prefixed_mask B k = Inr (map ((#) False) k) \<and> shape2 B (Suc L) (map ((#) False) k)"
proof -
  have l: "length k = B" using assms by (simp add: shape2_def)
  have "map2 (@) (replicate B [False]) k = map ((#) False) k"
    unfolding l [symmetric] by (induction k) simp_all
  then show ?thesis
    using assms by (auto simp: prefixed_mask_def torch_cat_dim1_def shape2_def)
qed

lemma torch_cat3_dim1_shape:
  assumes e: "shape3 B L D e" and P: "shape3 B 1 D P"
  shows "torch_cat3_dim1 P e = Inr (map2 (@) P e) \<and> shape3 B (Suc L) D (map2 (@) P e)"
proof -
  have lP: "length P = B" and le: "length e = B"
    using e P by (simp_all add: shape3_def)
  have "\<forall>u \<in> set (concat P). \<forall>v \<in> set (concat e). length u = length v"
    using e P by (auto simp: shape3_def shape2_def)
  then have c: "torch_cat3_dim1 P e = Inr (map2 (@) P e)"
    unfolding torch_cat3_dim1_def torch_cat_dim1_def by (simp add: lP le)
  have "shape2 (Suc L) D s" if "s \<in> set (map2 (@) P e)" for s
  proof -
    from that obtain p x where "s = p @ x" "p \<in> set P" "x \<in> set e"
      by (auto dest: set_zip_leftD set_zip_rightD)
    then show ?thesis using e P by (auto simp: shape3_def shape2_def)
  qed
  then have "shape3 B (Suc L) D (map2 (@) P e)"
    by (simp add: shape3_def lP le)
  with c show ?thesis by simp
qed

lemma map_hd_position0:
  assumes "shape3 B (Suc N) D Y"
  shows "map hd Y = map (\<lambda>s. s ! 0) Y"
proof -
  have "hd s = s ! 0" if "s \<in> set Y" for s
    using assms that by (cases s) (auto simp: shape3_def shape2_def)
  then show ?thesis by simp
qed

text \<open>The path both forward functions share, for pooling vectors \<open>P\<close> of shape [B, 1, d].\<close>

lemma pooled_path:
  assumes c: "constructed m" and e: "shape3 B L (item_encoder_d_embed m) e"
    and k: "shape2 B L k" and P: "shape3 B 1 (item_encoder_d_embed m) P"
  shows "\<exists>Y. torch_cat3_dim1 P e = Inr (map2 (@) P e)
           \<and> shape3 B (1 + L) (item_encoder_d_embed m) (map2 (@) P e)
           \<and> prefixed_mask (length e) k = Inr (map ((#) False) k)
           \<and> shape2 B (1 + L) (map ((#) False) k)
           \<and> run_transformer_encoder m rho (map2 (@) P e) (map ((#) False) k) = Inr Y
           \<and> shape3 B (1 + L) (item_encoder_d_embed m) Y
           \<and> select_position0 Y = Inr (map (\<lambda>s. s ! 0) Y)
           \<and> shape2 B (item_encoder_d_embed m) (map (\<lambda>s. s ! 0) Y)"
proof -
  let ?d = "item_encoder_d_embed m"
  let ?X = "map2 (@) P e" and ?M = "map ((#) False) k"
  let ?Y = "fold (layer_batch (training m) (encoder_draws rho) ?M) (transformer_encoder m) ?X"
  have le: "length e = B" using e by (simp add: shape3_def)
  have lyr: "\<forall>lyr \<in> set (transformer_encoder m). \<forall>train rho b i x vis. length x = ?d \<longrightarrow>
           (\<forall>v \<in> set vis. length v = ?d) \<longrightarrow> length (lyr train rho b i x vis) = ?d"
    using c unfolding constructed_def by blast
  note X = torch_cat3_dim1_shape [OF e P]
  note M = prefixed_mask_shape [OF k]
  have Y: "attention_stack (transformer_encoder m) ?d (training m) (encoder_draws rho) ?X ?M = Inr ?Y
         \<and> shape3 B (Suc L) ?d ?Y"
    using X M lyr by (intro attention_stack_shape) simp_all
  have S: "select_position0 ?Y = Inr (map (\<lambda>s. s ! 0) ?Y) \<and> shape2 B ?d (map (\<lambda>s. s ! 0) ?Y)"
    using select_position0_shape [of B L ?d ?Y] map_hd_position0 [of B L ?d ?Y] Y by simp
  show ?thesis
    using X M Y S by (intro exI [of _ ?Y]) (simp add: run_transformer_encoder_def le)
qed


lemma prepend_token: "map2 (@) (replicate (length e) [tok]) e = map ((#) tok) e"
  by (induction e) simp_all

lemma prepend_target:
  "length t = length e \<Longrightarrow>
   map2 (@) (map (\<lambda>v. [v]) (map2 (@) (replicate (length e) img) t)) e
     = map2 (\<lambda>txt s. (img @ txt) # s) t e"
proof (induction e arbitrary: t)
  case Nil
  then show ?case by simp
next
  case (Cons x e)
  then obtain y t' where "t = y # t'" by (cases t) auto
  with Cons show ?case by simp
qed

lemma outfit_token_shape:
  "length tok = D \<Longrightarrow> shape3 B 1 D (replicate B [tok])"
  by (auto simp: shape3_def shape2_def)

lemma target_items_embedding_shape:
  assumes t: "shape2 B Dt t" and img: "length (target_item_image_emb m) + Dt = D"
  shows "target_items_embedding m B t
           = Inr (map (\<lambda>v. [v]) (map2 (@) (replicate B (target_item_image_emb m)) t))
       \<and> shape3 B 1 D (map (\<lambda>v. [v]) (map2 (@) (replicate B (target_item_image_emb m)) t))"
proof -
  have lt: "length t = B" using t by (simp add: shape2_def)
  have "length v = D" if "v \<in> set (map2 (@) (replicate B (target_item_image_emb m)) t)" for v
  proof -
    from that obtain a b where ab: "(a, b) \<in> set (zip (replicate B (target_item_image_emb m)) t)"
      and v: "v = a @ b"
      by auto
    have "a \<in> set (replicate B (target_item_image_emb m))" "b \<in> set t"
      using ab by (auto dest: set_zip_leftD set_zip_rightD)
    then have "a = target_item_image_emb m" "length b = Dt"
      using t by (auto simp: shape2_def)
    then show ?thesis using v img by simp
  qed
  then have "shape3 B 1 D (map (\<lambda>v. [v]) (map2 (@) (replicate B (target_item_image_emb m)) t))"
    by (auto simp: shape3_def shape2_def lt)
  then show ?thesis
    by (simp add: target_items_embedding_def torch_cat_dim1_def bind_err_def lt)
qed

lemma constructed_example_model: "constructed example_model"
  by (simp add: constructed_def example_model_def example_layer_def shape2_def)

text \<open>
  C3. For an input [B, L, d] with a mask [B, L] (and, for CIR, text embeddings that
  complete the learned image placeholder to d entries), both forward paths put exactly
  one position ahead of every sequence (the outfit token for CP, the placeholder joined
  with the text embedding for CIR) and one \<open>False\<close> ahead of every mask row. The
  attention stack gets a sequence [B, 1 + L, d] and a mask [B, 1 + L], returns states of
  the same shape, and the head is applied to its states at position 0.
\<close>

theorem one_pooling_position_prepended:
  assumes c: "constructed m" and e: "shape3 B L (item_encoder_d_embed m) e"
    and k: "shape2 B L k" and t: "shape2 B Dt t"
    and img: "length (target_item_image_emb m) + Dt = item_encoder_d_embed m"
  shows "\<exists>Ycp Ycir.
      cp_transformer_inputs m e = Inr (map ((#) (outfit_token m)) e)
    \<and> shape3 B (1 + L) (item_encoder_d_embed m) (map ((#) (outfit_token m)) e)
    \<and> cir_embeddings m e t = Inr (map2 (\<lambda>txt s. (target_item_image_emb m @ txt) # s) t e)
    \<and> shape3 B (1 + L) (item_encoder_d_embed m)
        (map2 (\<lambda>txt s. (target_item_image_emb m @ txt) # s) t e)
    \<and> prefixed_mask (length e) k = Inr (map ((#) False) k)
    \<and> shape2 B (1 + L) (map ((#) False) k)
    \<and> run_transformer_encoder m rho (map ((#) (outfit_token m)) e) (map ((#) False) k) = Inr Ycp
    \<and> shape3 B (1 + L) (item_encoder_d_embed m) Ycp
    \<and> cp_forward m rho e k None = cp_ffn m rho (map (\<lambda>s. s ! 0) Ycp)
    \<and> run_transformer_encoder m rho
        (map2 (\<lambda>txt s. (target_item_image_emb m @ txt) # s) t e) (map ((#) False) k) = Inr Ycir
    \<and> shape3 B (1 + L) (item_encoder_d_embed m) Ycir
    \<and> cir_forward m rho e k t = cir_ffn m (map (\<lambda>s. s ! 0) Ycir)"
proof -
  let ?d = "item_encoder_d_embed m"
  have le: "length e = B" using e by (simp add: shape3_def)
  have lt: "length t = B" using t by (simp add: shape2_def)
  have tok: "shape3 B 1 ?d (replicate B [outfit_token m])"
    using c by (intro outfit_token_shape) (simp add: constructed_def)
  define P where "P = map (\<lambda>v. [v]) (map2 (@) (replicate B (target_item_image_emb m)) t)"
  have T: "target_items_embedding m B t = Inr P" "shape3 B 1 ?d P"
    using target_items_embedding_shape [OF t img] by (simp_all only: P_def)
  from pooled_path [OF c e k tok, of rho] obtain Ycp where cp:
    "torch_cat3_dim1 (replicate B [outfit_token m]) e = Inr (map2 (@) (replicate B [outfit_token m]) e)"
    "shape3 B (1 + L) ?d (map2 (@) (replicate B [outfit_token m]) e)"
    "prefixed_mask (length e) k = Inr (map ((#) False) k)"
    "shape2 B (1 + L) (map ((#) False) k)"
    "run_transformer_encoder m rho (map2 (@) (replicate B [outfit_token m]) e) (map ((#) False) k) = Inr Ycp"
    "shape3 B (1 + L) ?d Ycp"
    "select_position0 Ycp = Inr (map (\<lambda>s. s ! 0) Ycp)"
    by blast
  from pooled_path [OF c e k T(2), of rho] obtain Ycir where cir:
    "torch_cat3_dim1 P e = Inr (map2 (@) P e)"
    "shape3 B (1 + L) ?d (map2 (@) P e)"
    "run_transformer_encoder m rho (map2 (@) P e) (map ((#) False) k) = Inr Ycir"
    "shape3 B (1 + L) ?d Ycir"
    "select_position0 Ycir = Inr (map (\<lambda>s. s ! 0) Ycir)"
    by blast
  have p1: "map2 (@) (replicate B [outfit_token m]) e = map ((#) (outfit_token m)) e"
    using prepend_token [of e] by (simp add: le)
  have p2: "map2 (@) P e = map2 (\<lambda>txt s. (target_item_image_emb m @ txt) # s) t e"
    unfolding P_def using prepend_target [of t e "target_item_image_emb m"] by (simp only: le lt)
  have a1: "cp_transformer_inputs m e = Inr (map ((#) (outfit_token m)) e)"
    using cp(1) by (simp add: cp_transformer_inputs_def le p1)
  have a2: "cir_embeddings m e t = Inr (map2 (@) P e)"
    using cir(1) T(1) by (simp add: cir_embeddings_def le bind_err_def)
  have f1: "cp_forward m rho e k None = cp_ffn m rho (map (\<lambda>s. s ! 0) Ycp)"
    using a1 cp(3,5,7)
    by (simp add: cp_forward_def cp_outfit_embedding_def cp_outfit_token_states_def bind_err_def p1)
  have f2: "cir_forward m rho e k t = cir_ffn m (map (\<lambda>s. s ! 0) Ycir)"
    using a2 cp(3) cir(3,5)
    by (simp add: cir_forward_def cir_target_item_token_states_def bind_err_def)
  show ?thesis
    using a1 a2 f1 f2 cp(2,3,4,5,6) cir(2,3,4) unfolding p1 p2
    by (intro exI [of _ Ycp] exI [of _ Ycir]) simp
qed

theorem one_pooling_position_prepended_witness:
  "cp_transformer_inputs example_model [[[1, 2], [3, 4]]] = Inr [[[1, 0], [1, 2], [3, 4]]]
   \<and> cir_embeddings example_model [[[1, 2], [3, 4]]] [[5]] = Inr [[[3, 5], [1, 2], [3, 4]]]
   \<and> prefixed_mask 1 [[False, True]] = Inr [[False, False, True]]
   \<and> shape3 1 3 2 [[[1, 0], [1, 2], [3, 4 :: real]]]
   \<and> shape2 1 3 [[False, False, True]]"
proof -
  have e: "shape3 1 2 (item_encoder_d_embed example_model) [[[1, 2], [3, 4 :: real]]]"
    and k: "shape2 1 2 [[False, True]]" and t: "shape2 1 1 [[5 :: real]]"
    and img: "length (target_item_image_emb example_model) + 1 = item_encoder_d_embed example_model"
    by (simp_all add: shape3_def shape2_def example_model_def)
  show ?thesis
    using one_pooling_position_prepended [OF constructed_example_model e k t img, of example_draws]
    by (auto simp: example_model_def shape3_def shape2_def)
qed

section \<open>The heads\<close>



lemma linear_bias:
  assumes S: "shape2 B d S" and W: "shape2 n d W"
  shows "linear W (Some b) S = Inr (map (\<lambda>s. map2 (\<lambda>w c. dot w s + c) W b) S)"
  using assms by (auto simp: linear_def shape2_def)








lemma dropout_shape: "shape2 B d S \<Longrightarrow> shape2 B d (dropout p train keep S)"
  by (auto simp: dropout_def shape2_def in_set_enumerate_eq)

text \<open>
  C6. On pooled states [B, d] the CP head is dropout followed by one affine map to a
  single scalar per outfit: the result is [B, 1] and holds the value of the affine map
  itself, with no activation applied to it. In evaluation mode dropout is the identity.
\<close>

theorem cp_head_raw_logit:
  assumes c: "constructed m" and S: "shape2 B (item_encoder_d_embed m) S"
  shows "\<exists>w b.
      cp_ffn_weight m = [w] \<and> cp_ffn_bias m = [b]
    \<and> cp_ffn m rho S
        = Inr (map (\<lambda>s. [dot w s + b]) (dropout (cp_ffn_p m) (training m) (cp_keep rho) S))
    \<and> shape2 B 1 (map (\<lambda>s. [dot w s + b]) (dropout (cp_ffn_p m) (training m) (cp_keep rho) S))
    \<and> (\<not> training m \<longrightarrow> cp_ffn m rho S = Inr (map (\<lambda>s. [dot w s + b]) S))"
proof -
  have W: "shape2 1 (item_encoder_d_embed m) (cp_ffn_weight m)" and lb: "length (cp_ffn_bias m) = 1"
    using c by (simp_all add: constructed_def)
  from W obtain w where w: "cp_ffn_weight m = [w]"
    by (cases "cp_ffn_weight m") (auto simp: shape2_def)
  from lb obtain b where b: "cp_ffn_bias m = [b]"
    by (cases "cp_ffn_bias m") auto
  let ?D = "dropout (cp_ffn_p m) (training m) (cp_keep rho) S"
  have D: "shape2 B (item_encoder_d_embed m) ?D"
    using S by (rule dropout_shape)
  have r: "cp_ffn m rho S = Inr (map (\<lambda>s. [dot w s + b]) ?D)"
    using linear_bias [OF D W, of "cp_ffn_bias m"] by (simp add: cp_ffn_def w b)
  have sh: "shape2 B 1 (map (\<lambda>s. [dot w s + b]) ?D)"
    using D by (simp add: shape2_def)
  have ev: "\<not> training m \<longrightarrow> cp_ffn m rho S = Inr (map (\<lambda>s. [dot w s + b]) S)"
    using r by (simp add: dropout_def)
  from w b r sh ev show ?thesis by blast
qed

lemma ex_cp_ffn_training:
  "cp_ffn (example_model\<lparr>training := True\<rparr>) example_draws [[5, 4]] = Inr [[0]]"
  by (simp add: model_defs)

theorem cp_head_raw_logit_witness:
  "cp_ffn example_model example_draws [[5, 4]] = Inr [[3]]
   \<and> shape2 1 1 [[3 :: real]]
   \<and> cp_ffn (example_model\<lparr>training := True\<rparr>) example_draws [[5, 4]] = Inr [[0]]"
proof -
  have S: "shape2 1 (item_encoder_d_embed example_model) [[5, 4 :: real]]"
    by (simp add: shape2_def example_model_def)
  from cp_head_raw_logit [OF constructed_example_model S, of example_draws]
  obtain w b where wb: "cp_ffn_weight example_model = [w]" "cp_ffn_bias example_model = [b]"
    and r: "cp_ffn example_model example_draws [[5, 4]]
        = Inr (map (\<lambda>s. [dot w s + b]) (dropout (cp_ffn_p example_model) (training example_model) (cp_keep example_draws) [[5, 4]]))"
    and sh: "shape2 1 1 (map (\<lambda>s. [dot w s + b]) (dropout (cp_ffn_p example_model) (training example_model) (cp_keep example_draws) [[5, 4]]))"
    by blast
  have fields: "w = [1, 2]" "b = - 10" "training example_model = False"
    using wb by (simp_all add: example_model_def)
  have "cp_ffn example_model example_draws [[5, 4]] = Inr [[3]]"
    using r by (simp add: fields dropout_def dot_def)
  moreover have "shape2 1 1 [[3 :: real]]"
    using sh by (simp add: fields dropout_def dot_def)
  ultimately show ?thesis
    using ex_cp_ffn_training by simp
qed

section \<open>Precomputed embeddings and the encoder input\<close>

lemma precompute_embeddings_training_differs:
  "fst (forward (example_model\<lparr>training := True\<rparr>) example_draws
          OutfitPrecomputeEmbeddingTask (Args_precompute [[[2, 3, 4]]] [[''shirt'']]))
   \<noteq> fst (forward (example_model\<lparr>training := True\<rparr>)
            (example_draws\<lparr>item_draws := \<lambda>n. False\<rparr>)
            OutfitPrecomputeEmbeddingTask (Args_precompute [[[2, 3, 4]]] [[''shirt'']]))"
  by (simp add: forward_def forward_dict_def precompute_embeddings_def bind_err_def
        select_position0_def example_model_def example_draws_def)

lemma CLIPImageEncoder_forward_training_differs:
  "fst (CLIPImageEncoder_forward
          (CLIPImageEncoder_init example_clip_model example_clip_processor True
             \<lparr>model_training := True\<rparr>) (\<lambda>n. True) [[1, 2], [3]] None)
   \<noteq> fst (CLIPImageEncoder_forward
          (CLIPImageEncoder_init example_clip_model example_clip_processor True
             \<lparr>model_training := True\<rparr>) (\<lambda>n. False) [[1, 2], [3]] None)"
  by (simp add: CLIPImageEncoder_forward_def CLIPImageEncoder_init_def bind_err_def
        example_clip_model_def example_clip_processor_def)

text \<open>
  C9. With fixed weights (one model), in evaluation mode and with dropout disabled there
  (in evaluation mode the item encoder reads none of its draws), two runs of the
  precompute path on the same input give the same output whatever the draws of the two
  runs are, and the model is returned unchanged. When the item encoder gives sequences
  of length 1 the output is its slice at position 0, one embedding per item, of shape
  [B, D]. The image backbone behaves the same way: its constructor puts the vision
  model in evaluation mode, and \<open>_forward\<close>, which adds nothing random of its own,
  then returns the same embeddings for the same images whatever the draws are.
  \<open>precompute_embeddings_training_differs\<close> and
  \<open>CLIPImageEncoder_forward_training_differs\<close> show that in training mode two runs
  can differ: evaluation mode is what the statement needs.
\<close>

theorem precompute_embeddings_deterministic:
  assumes ev: "\<not> training m"
    and off: "dropout_disabled_in_evaluation (item_encoder m)"
    and E: "item_encoder m False (item_draws rho1) imgs txts = Inr E"
    and sh: "shape3 B 1 D E"
    and clip_off: "dropout_disabled_in_evaluation pretrained_model"
  shows "forward m rho1 OutfitPrecomputeEmbeddingTask (Args_precompute imgs txts)
           = forward m rho2 OutfitPrecomputeEmbeddingTask (Args_precompute imgs txts)
       \<and> forward m rho1 OutfitPrecomputeEmbeddingTask (Args_precompute imgs txts)
           = (Inr (map (\<lambda>s. s ! 0) E), m)
       \<and> shape2 B D (map (\<lambda>s. s ! 0) E)
       \<and> E = map (\<lambda>v. [v]) (map (\<lambda>s. s ! 0) E)
       \<and> CLIPImageEncoder_forward
             (CLIPImageEncoder_init pretrained_model pretrained_processor freeze)
             clip_rho1 clip_imgs kargs
           = CLIPImageEncoder_forward
               (CLIPImageEncoder_init pretrained_model pretrained_processor freeze)
               clip_rho2 clip_imgs kargs"
proof -
  have sel: "select_position0 E = Inr (map hd E) \<and> shape2 B D (map hd E)"
    using sh by (intro select_position0_shape) simp
  have hd0: "map hd E = map (\<lambda>s. s ! 0) E"
    using sh by (intro map_hd_position0 [of B 0 D]) simp
  have one: "s = [s ! 0]" if "s \<in> set E" for s
  proof -
    have "length s = 1" using sh that by (simp add: shape3_def shape2_def)
    then show ?thesis by (cases s) auto
  qed
  have "map (\<lambda>v. [v]) (map (\<lambda>s. s ! 0) E) = map (\<lambda>s. s) E"
    unfolding map_map comp_def using one by (intro map_cong) simp_all
  then have single: "E = map (\<lambda>v. [v]) (map (\<lambda>s. s ! 0) E)" by simp
  have same: "item_encoder m False (item_draws rho) = item_encoder m False (item_draws rho1)"
    for rho
    using off unfolding dropout_disabled_in_evaluation_def by blast
  have f: "forward m rho OutfitPrecomputeEmbeddingTask (Args_precompute imgs txts)
             = (Inr (map (\<lambda>s. s ! 0) E), m)" for rho
    using E sel hd0 ev
    by (simp add: forward_def forward_dict_def precompute_embeddings_def bind_err_def
          same [of rho])
  have clip_same: "pretrained_model False clip_rho1 = pretrained_model False clip_rho2"
    using clip_off unfolding dropout_disabled_in_evaluation_def by blast
  have clip: "CLIPImageEncoder_forward
             (CLIPImageEncoder_init pretrained_model pretrained_processor freeze)
             clip_rho1 clip_imgs kargs
           = CLIPImageEncoder_forward
               (CLIPImageEncoder_init pretrained_model pretrained_processor freeze)
               clip_rho2 clip_imgs kargs"
    by (simp add: CLIPImageEncoder_forward_def CLIPImageEncoder_init_def clip_same)
  show ?thesis
    using f [of rho1] f [of rho2] sel hd0 single clip by simp
qed

theorem precompute_embeddings_deterministic_witness:
  "forward example_model example_draws OutfitPrecomputeEmbeddingTask
       (Args_precompute [[[2, 3, 4]], [[5]]] [[''shirt''], [''pants'']])
     = forward example_model (example_draws\<lparr>item_draws := \<lambda>n. False\<rparr>)
         OutfitPrecomputeEmbeddingTask
         (Args_precompute [[[2, 3, 4]], [[5]]] [[''shirt''], [''pants'']])
   \<and> forward example_model example_draws OutfitPrecomputeEmbeddingTask
       (Args_precompute [[[2, 3, 4]], [[5]]] [[''shirt''], [''pants'']])
     = (Inr [[3, 1], [1, 1]], example_model)
   \<and> CLIPImageEncoder_forward
         (CLIPImageEncoder_init example_clip_model example_clip_processor True)
         (\<lambda>n. True) [[1, 2], [3]] None
     = CLIPImageEncoder_forward
         (CLIPImageEncoder_init example_clip_model example_clip_processor True)
         (\<lambda>n. False) [[1, 2], [3]] None"
proof -
  have ev: "\<not> training example_model"
    by (simp add: example_model_def)
  have off: "dropout_disabled_in_evaluation (item_encoder example_model)"
    by (simp add: dropout_disabled_in_evaluation_def example_model_def)
  have E: "item_encoder example_model False (item_draws example_draws)
             [[[2, 3, 4]], [[5]]] [[''shirt''], [''pants'']]
             = Inr [[[3, 1]], [[1, 1]]]"
    by (simp add: example_model_def)
  have sh: "shape3 2 1 2 [[[3, 1]], [[1, 1 :: real]]]"
    by (simp add: shape3_def shape2_def)
  have clip_off: "dropout_disabled_in_evaluation example_clip_model"
    by (simp add: dropout_disabled_in_evaluation_def example_clip_model_def fun_eq_iff)
  have slice: "map (\<lambda>s. s ! 0) [[[3, 1]], [[1, 1 :: real]]] = [[3, 1], [1, 1]]"
    by simp
  show ?thesis
    using precompute_embeddings_deterministic
      [OF ev off E sh clip_off,
        of "example_draws\<lparr>item_draws := \<lambda>n. False\<rparr>" example_clip_processor True
          "\<lambda>n. True" "[[1, 2], [3]]" None "\<lambda>n. False"]
    unfolding slice by blast
qed

text \<open>
  C10. With an \<open>encoder_input_dict\<close> the CP path runs on the item encoder's output
  for it, and the \<open>outfit_embedding\<close> argument has no influence; without one it runs
  on the \<open>outfit_embedding\<close> argument as given.
\<close>

theorem cp_forward_encoder_input_dict:
  "cp_forward m rho e1 k (Some d)
     = bind_err (item_encoder m (training m) (item_draws rho) (images d) (texts d))
         (\<lambda>e. cp_forward m rho e k None)
   \<and> cp_forward m rho e1 k (Some d) = cp_forward m rho e2 k (Some d)
   \<and> cp_forward m rho e1 k None
     = bind_err (cp_outfit_token_states m rho e1 k) (cp_ffn m rho)"
  by (simp add: cp_forward_def cp_outfit_embedding_def bind_err_def split: sum.splits)

theorem cp_forward_encoder_input_dict_witness:
  "cp_forward example_model example_draws [] [[False, True]]
       (Some \<lparr>images = [[[2], [2, 3, 4]]], texts = [[''shirt'', ''pants'']]\<rparr>)
     = cp_forward example_model example_draws [[[1, 1], [3, 1]]] [[False, True]] None
   \<and> cp_forward example_model example_draws [[[8, 8], [8, 8]]] [[False, True]]
       (Some \<lparr>images = [[[2], [2, 3, 4]]], texts = [[''shirt'', ''pants'']]\<rparr>)
     = cp_forward example_model example_draws [] [[False, True]]
       (Some \<lparr>images = [[[2], [2, 3, 4]]], texts = [[''shirt'', ''pants'']]\<rparr>)"
proof -
  let ?d = "\<lparr>images = [[[2], [2, 3, 4 :: nat]]], texts = [[''shirt'', ''pants'']]\<rparr>"
  have enc: "item_encoder example_model (training example_model) (item_draws example_draws)
               [[[2], [2, 3, 4]]] [[''shirt'', ''pants'']]
               = Inr [[[1, 1], [3, 1]]]"
    by (simp add: example_model_def)
  show ?thesis
    using cp_forward_encoder_input_dict [of example_model example_draws "[]" "[[False, True]]" ?d]
      cp_forward_encoder_input_dict
        [of example_model example_draws "[[[8, 8], [8, 8]]]" "[[False, True]]" ?d "[]"]
    by (simp add: enc bind_err_def)
qed

section \<open>The trainer\<close>

text \<open>
  C8. In run mode \<open>test\<close> with a world size above one the hook raises the
  \<open>ValueError\<close> "distributed runs are not supported in test mode" (the spec's
  UnsupportedConcurrencyModeError): it has then set the device type and nothing else, no
  checkpoint is loaded, and whatever is sequenced after the hook, the test loop
  included, does not run.
\<close>

theorem hook_after_setup_rejects:
  assumes "world_size t > 1" and "run_mode t = ''test''"
  shows "and_then (hook_after_setup t) k
           = (Inl (ValueError Test_mode_not_distributed),
              t\<lparr>device_type := Some (if cuda_is_available t then ''cuda'' else ''cpu'')\<rparr>)
         \<and> fst (hook_after_setup t) = Inl (ValueError Test_mode_not_distributed)
         \<and> loaded_checkpoint (snd (hook_after_setup t)) = loaded_checkpoint t"
  using assms by (simp add: hook_after_setup_def and_then_def Let_def)

theorem hook_after_setup_rejects_witness:
  "and_then (hook_after_setup example_trainer)
       (\<lambda>t. (test example_model (\<lambda>step. example_draws) [example_batch], t))
     = (Inl (ValueError Test_mode_not_distributed), example_trainer\<lparr>device_type := Some ''cpu''\<rparr>)
   \<and> loaded_checkpoint (snd (hook_after_setup example_trainer)) = None"
proof -
  have w: "world_size example_trainer > 1" and r: "run_mode example_trainer = ''test''"
    by (simp_all add: example_trainer_def)
  have f: "cuda_is_available example_trainer = False" "loaded_checkpoint example_trainer = None"
    by (simp_all add: example_trainer_def)
  show ?thesis
    using hook_after_setup_rejects
      [OF w r, of "\<lambda>t. (test example_model (\<lambda>step. example_draws) [example_batch], t)"]
    by (simp add: f)
qed

section \<open>The fill-in-the-blank test\<close>

lemma argmin_list_least:
  "xs \<noteq> [] \<Longrightarrow>
     argmin_list xs < length xs
   \<and> (\<forall>j < length xs. xs ! argmin_list xs \<le> xs ! j)
   \<and> (\<forall>j < argmin_list xs. xs ! argmin_list xs < xs ! j)"
proof (induction xs rule: argmin_list.induct)
  case 1
  then show ?case by simp
next
  case (2 x)
  then show ?case by simp
next
  case (3 x y ys)
  let ?k = "argmin_list (y # ys)"
  have IH: "?k < length (y # ys)" "\<forall>j < length (y # ys). (y # ys) ! ?k \<le> (y # ys) ! j"
    "\<forall>j < ?k. (y # ys) ! ?k < (y # ys) ! j"
    using 3 by simp_all
  show ?case
  proof (cases "x \<le> (y # ys) ! ?k")
    case True
    then have a: "argmin_list (x # y # ys) = 0" by (simp add: Let_def)
    have "x \<le> (x # y # ys) ! j" if "j < length (x # y # ys)" for j
    proof (cases j)
      case 0
      then show ?thesis by simp
    next
      case (Suc j')
      then have "(y # ys) ! ?k \<le> (y # ys) ! j'" using IH(2) that by simp
      with True Suc show ?thesis by simp
    qed
    then show ?thesis unfolding a by simp
  next
    case False
    then have a: "argmin_list (x # y # ys) = Suc ?k" by (simp add: Let_def)
    have le: "(y # ys) ! ?k \<le> (x # y # ys) ! j" if "j < length (x # y # ys)" for j
    proof (cases j)
      case 0
      then show ?thesis using False by simp
    next
      case (Suc j')
      then show ?thesis using IH(2) that by simp
    qed
    have lt: "(y # ys) ! ?k < (x # y # ys) ! j" if "j < Suc ?k" for j
    proof (cases j)
      case 0
      then show ?thesis using False by simp
    next
      case (Suc j')
      then show ?thesis using IH(3) that by simp
    qed
    show ?thesis unfolding a using IH(1) le lt by simp
  qed
qed

lemma cdist_rows:
  assumes "cdist (map (\<lambda>v. [v]) y) c = Inr d"
  shows "length c = length y \<and> map hd d = map2 (\<lambda>v qs. map (euclidean v) qs) y c"
proof -
  have l: "length y = length c"
    using assms by (simp add: cdist_def split: if_splits)
  have d: "d = map2 (\<lambda>ps qs. map (\<lambda>p. map (euclidean p) qs) ps) (map (\<lambda>v. [v]) y) c"
    using assms by (simp add: cdist_def split: if_splits)
  have "map hd (map2 (\<lambda>ps qs. map (\<lambda>p. map (euclidean p) qs) ps) (map (\<lambda>v. [v]) y) c)
      = map2 (\<lambda>v qs. map (euclidean v) qs) y c"
    using l
  proof (induction y arbitrary: c)
    case Nil
    then show ?case by simp
  next
    case (Cons v y)
    then obtain q c' where "c = q # c'" by (cases c) auto
    with Cons show ?case by simp
  qed
  with l d show ?thesis by simp
qed

text \<open>
  C5. The dictionary gives the fill-in-the-blank tag the handler of the complementary
  item retrieval tag, so for equal arguments the two dispatches are the same call.
  The test loop selects, for every example of a batch, an index into that example's own
  candidates (not into a catalog): the candidate at that index has the least Euclidean
  distance to the predicted embedding, and it is the first such candidate.
\<close>

theorem fill_in_the_blank_reuses_cir:
  "forward m rho OutfitFillInTheBlankTask a = forward m rho OutfitComplementaryItemRetrievalTask a
   \<and> forward_dict OutfitFillInTheBlankTask = Some Handler_cir_forward
   \<and> forward_dict OutfitComplementaryItemRetrievalTask = Some Handler_cir_forward
   \<and> (y_hats_index m rho batch_dict = Inr idx \<longrightarrow>
        (\<exists>y. fst (forward m rho (input_task batch_dict) (input_args batch_dict)) = Inr y
           \<and> length idx = length y
           \<and> length (candidate_item_embedding batch_dict) = length y
           \<and> (\<forall>b < length y.
                idx ! b < length (candidate_item_embedding batch_dict ! b)
              \<and> (\<forall>j < length (candidate_item_embedding batch_dict ! b).
                    euclidean (y ! b) (candidate_item_embedding batch_dict ! b ! (idx ! b))
                      \<le> euclidean (y ! b) (candidate_item_embedding batch_dict ! b ! j))
              \<and> (\<forall>j < idx ! b.
                    euclidean (y ! b) (candidate_item_embedding batch_dict ! b ! (idx ! b))
                      < euclidean (y ! b) (candidate_item_embedding batch_dict ! b ! j)))))"
proof -
  let ?c = "candidate_item_embedding batch_dict"
  have same: "forward m rho OutfitFillInTheBlankTask a
            = forward m rho OutfitComplementaryItemRetrievalTask a"
    by (simp add: forward_def forward_dict_def)
  have reg: "forward_dict OutfitFillInTheBlankTask = Some Handler_cir_forward"
    "forward_dict OutfitComplementaryItemRetrievalTask = Some Handler_cir_forward"
    by (simp_all add: forward_dict_def)
  have sel: "\<exists>y. fst (forward m rho (input_task batch_dict) (input_args batch_dict)) = Inr y
           \<and> length idx = length y \<and> length ?c = length y
           \<and> (\<forall>b < length y.
                idx ! b < length (?c ! b)
              \<and> (\<forall>j < length (?c ! b).
                    euclidean (y ! b) (?c ! b ! (idx ! b)) \<le> euclidean (y ! b) (?c ! b ! j))
              \<and> (\<forall>j < idx ! b.
                    euclidean (y ! b) (?c ! b ! (idx ! b)) < euclidean (y ! b) (?c ! b ! j)))"
    if run: "y_hats_index m rho batch_dict = Inr idx"
  proof -
    from run obtain y d where y: "fst (forward m rho (input_task batch_dict) (input_args batch_dict)) = Inr y"
      and d: "cdist (map (\<lambda>v. [v]) y) ?c = Inr d" and am: "argmin (map hd d) = Inr idx"
      by (auto simp: y_hats_index_def bind_err_def split: sum.splits)
    note rows = cdist_rows [OF d]
    let ?rows = "map2 (\<lambda>v qs. map (euclidean v) qs) y ?c"
    have ne: "[] \<notin> set ?rows" and idx: "idx = map argmin_list ?rows"
      using am rows by (auto simp: argmin_def split: if_splits)
    have lc: "length ?c = length y" using rows by simp
    have each: "idx ! b < length (?c ! b)
              \<and> (\<forall>j < length (?c ! b).
                    euclidean (y ! b) (?c ! b ! (idx ! b)) \<le> euclidean (y ! b) (?c ! b ! j))
              \<and> (\<forall>j < idx ! b.
                    euclidean (y ! b) (?c ! b ! (idx ! b)) < euclidean (y ! b) (?c ! b ! j))"
      if b: "b < length y" for b
    proof -
      let ?r = "map (euclidean (y ! b)) (?c ! b)"
      have rb: "?rows ! b = ?r" using b lc by simp
      have "?rows ! b \<in> set ?rows" using b lc by (intro nth_mem) simp
      with ne rb have "?r \<noteq> []" by metis
      note A = argmin_list_least [OF this]
      have k: "argmin_list ?r < length (?c ! b)"
        using A by simp
      have ib: "idx ! b = argmin_list ?r"
        using b lc by (simp add: idx)
      have le': "euclidean (y ! b) (?c ! b ! argmin_list ?r) \<le> euclidean (y ! b) (?c ! b ! j)"
        if "j < length (?c ! b)" for j
      proof -
        have "j < length ?r" using that by simp
        with A have "?r ! argmin_list ?r \<le> ?r ! j" by blast
        then show ?thesis using k that by simp
      qed
      have lt': "euclidean (y ! b) (?c ! b ! argmin_list ?r) < euclidean (y ! b) (?c ! b ! j)"
        if "j < argmin_list ?r" for j
      proof -
        from A that have "?r ! argmin_list ?r < ?r ! j" by blast
        then show ?thesis using k that by simp
      qed
      show ?thesis
        unfolding ib using k le' lt' by blast
    qed
    have "length idx = length y" using lc by (simp add: idx)
    with y lc each show ?thesis by blast
  qed
  show ?thesis
    using same reg sel by blast
qed


lemma ex_y_hats_index: "y_hats_index example_model example_draws example_batch = Inr [1]"
  by (simp add: y_hats_index_def example_batch_def forward_def forward_dict_def ex_cir
        cdist_def euclidean_def argmin_def bind_err_def)

theorem fill_in_the_blank_reuses_cir_witness:
  "y_hats_index example_model example_draws example_batch = Inr [1]
   \<and> euclidean [14, 16, 30] [14, 16, 30] \<le> euclidean [14, 16, 30] [0, 0, 0]
   \<and> forward example_model example_draws OutfitFillInTheBlankTask (input_args example_batch)
     = forward example_model example_draws OutfitComplementaryItemRetrievalTask
         (input_args example_batch)"
proof -
  note th = fill_in_the_blank_reuses_cir
    [of example_model example_draws "input_args example_batch" example_batch "[1]"]
  from th ex_y_hats_index obtain y where
    y: "fst (forward example_model example_draws (input_task example_batch)
               (input_args example_batch)) = Inr y"
    and least: "\<forall>b < length y.
        [1] ! b < length (candidate_item_embedding example_batch ! b)
      \<and> (\<forall>j < length (candidate_item_embedding example_batch ! b).
            euclidean (y ! b) (candidate_item_embedding example_batch ! b ! ([1] ! b))
              \<le> euclidean (y ! b) (candidate_item_embedding example_batch ! b ! j))
      \<and> (\<forall>j < [1] ! b.
            euclidean (y ! b) (candidate_item_embedding example_batch ! b ! ([1] ! b))
              < euclidean (y ! b) (candidate_item_embedding example_batch ! b ! j))"
    by blast
  have yv: "y = [[14, 16, 30]]"
    using y by (simp add: example_batch_def forward_def forward_dict_def ex_cir)
  have "0 < length y" by (simp add: yv)
  with least have
    "\<forall>j < length (candidate_item_embedding example_batch ! 0).
        euclidean (y ! 0) (candidate_item_embedding example_batch ! 0 ! ([1] ! 0))
          \<le> euclidean (y ! 0) (candidate_item_embedding example_batch ! 0 ! j)"
    by blast
  moreover have "0 < length (candidate_item_embedding example_batch ! 0)"
    by (simp add: example_batch_def)
  ultimately have
    "euclidean (y ! 0) (candidate_item_embedding example_batch ! 0 ! ([1] ! 0))
       \<le> euclidean (y ! 0) (candidate_item_embedding example_batch ! 0 ! 0)"
    by blast
  then have "euclidean [14, 16, 30] [14, 16, 30] \<le> euclidean [14, 16, 30] [0, 0, 0]"
    by (simp add: yv example_batch_def)
  with th ex_y_hats_index show ?thesis by blast
qed

section \<open>Merging the embedding cache\<close>

lemma read_files_acc:
  "read_files files a b c
     = (a @ concat (map (ids \<circ> snd) files), b @ map (embeddings \<circ> snd) files, c @ map fst files)"
  by (induction files arbitrary: a b c) auto

lemma fold_update_map_of:
  "fold (\<lambda>(k, v) d. d(k \<mapsto> v)) kvs d = d ++ map_of (rev kvs)"
proof (induction kvs arbitrary: d)
  case Nil
  then show ?case by simp
next
  case (Cons kv kvs)
  obtain k v where kv: "kv = (k, v)" by (cases kv)
  have "d ++ map_of (rev (kv # kvs)) = d ++ (map_of [(k, v)] ++ map_of (rev kvs))"
    by (simp add: kv)
  also have "\<dots> = (d ++ map_of [(k, v)]) ++ map_of (rev kvs)"
    by (simp only: map_add_assoc)
  also have "d ++ map_of [(k, v)] = d(k \<mapsto> v)"
    by simp
  finally have "d ++ map_of (rev (kv # kvs)) = d(k \<mapsto> v) ++ map_of (rev kvs)" .
  then show ?case
    using Cons.IH [of "d(k \<mapsto> v)"] by (simp only: kv fold_Cons comp_apply prod.case)
qed

lemma dict_of_map_of: "dict_of kvs = map_of (rev kvs)"
  by (simp add: dict_of_def fold_update_map_of)

lemma glob_sorted_sorted: "sorted (map fst (glob_sorted dir p))"
  by (simp add: glob_sorted_def)

lemma glob_sorted_set: "set (glob_sorted dir p) = {f \<in> set dir. matches p (fst f)}"
  by (auto simp: glob_sorted_def)

lemma load_embeddings_none:
  "glob_sorted dir p = [] \<Longrightarrow> load_embeddings dir p = (Inl (FileNotFoundError p), [])"
  by (simp add: load_embeddings_def)

lemma np_concatenate_rows:
  assumes "arrays \<noteq> []"
    and "\<forall>u \<in> set (concat arrays). \<forall>v \<in> set (concat arrays). length u = length v"
  shows "np_concatenate arrays = Inr (concat arrays)"
proof -
  have "arrays \<noteq> []
      \<and> (\<forall>u \<in> set (concat arrays). \<forall>v \<in> set (concat arrays). length u = length v)"
    using assms by (rule conjI)
  then show ?thesis
    unfolding np_concatenate_def by (rule if_P)
qed

lemma load_embeddings_unfold:
  assumes "glob_sorted dir p \<noteq> []"
  shows "load_embeddings dir p
          = (bind_err (np_concatenate (map (embeddings \<circ> snd) (glob_sorted dir p)))
               (\<lambda>all_embeddings. Inr (dict_of (zip (concat (map (ids \<circ> snd) (glob_sorted dir p))) all_embeddings))),
             map fst (glob_sorted dir p))"
  unfolding load_embeddings_def Let_def read_files_acc using assms
  by (simp only: if_False prod.case append_Nil)

lemma load_embeddings_some:
  assumes ne: "glob_sorted dir p \<noteq> []"
    and rows: "\<forall>u \<in> set (concat (map (embeddings \<circ> snd) (glob_sorted dir p))).
               \<forall>v \<in> set (concat (map (embeddings \<circ> snd) (glob_sorted dir p))). length u = length v"
  shows "load_embeddings dir p
           = (Inr (map_of (rev (zip (concat (map (ids \<circ> snd) (glob_sorted dir p)))
                                   (concat (map (embeddings \<circ> snd) (glob_sorted dir p)))))),
              map fst (glob_sorted dir p))"
proof -
  have "map (embeddings \<circ> snd) (glob_sorted dir p) \<noteq> []"
    using ne by simp
  then have c: "np_concatenate (map (embeddings \<circ> snd) (glob_sorted dir p))
            = Inr (concat (map (embeddings \<circ> snd) (glob_sorted dir p)))"
    using rows by (rule np_concatenate_rows)
  show ?thesis
    unfolding load_embeddings_unfold [OF ne] c by (simp add: bind_err_def dict_of_map_of)
qed

text \<open>
  C7. The files of the directory that match \<open>prefix*.pkl\<close> are read in the order
  of their sorted names. If there is none the function fails with
  \<open>FileNotFoundError\<close> (the spec's MissingEmbeddingCacheError) and has opened no
  file. Otherwise, for shards whose rows have one length, the result maps every item
  identifier of the concatenated id lists to the row at the same place of the stacked
  matrices (the last one where an identifier repeats), and the files opened are the
  matching ones in sorted order.
\<close>

theorem load_embeddings_merge:
  assumes "files = glob_sorted dir embed_file_prefix"
  shows "(files = [] \<longrightarrow>
            load_embeddings dir embed_file_prefix = (Inl (FileNotFoundError embed_file_prefix), []))
       \<and> (files \<noteq> [] \<longrightarrow>
            (\<forall>u \<in> set (concat (map (embeddings \<circ> snd) files)).
               \<forall>v \<in> set (concat (map (embeddings \<circ> snd) files)). length u = length v) \<longrightarrow>
            load_embeddings dir embed_file_prefix
              = (Inr (map_of (rev (zip (concat (map (ids \<circ> snd) files))
                                      (concat (map (embeddings \<circ> snd) files))))),
                 map fst files))
       \<and> sorted (map fst files)
       \<and> set files = {f \<in> set dir. matches embed_file_prefix (fst f)}
       \<and> (files = [] \<longleftrightarrow> (\<forall>f \<in> set dir. \<not> matches embed_file_prefix (fst f)))"
proof -
  have e: "glob_sorted dir embed_file_prefix = []
       \<longleftrightarrow> (\<forall>f \<in> set dir. \<not> matches embed_file_prefix (fst f))"
  proof -
    have "glob_sorted dir embed_file_prefix = [] \<longleftrightarrow> set (glob_sorted dir embed_file_prefix) = {}"
      by simp
    then show ?thesis unfolding glob_sorted_set by blast
  qed
  show ?thesis
    unfolding assms
    using load_embeddings_none [of dir embed_file_prefix]
      load_embeddings_some [of dir embed_file_prefix]
      glob_sorted_sorted [of dir embed_file_prefix]
      glob_sorted_set [of dir embed_file_prefix] e
    by blast
qed

lemma ex_glob: "glob_sorted example_dir ''e''
   = [(''e0.pkl'', \<lparr>ids = [4, 5], embeddings = [[0, 1], [1, 0]]\<rparr>),
      (''e1.pkl'', \<lparr>ids = [7], embeddings = [[1, 1]]\<rparr>)]"
  by code_simp

lemma ex_glob_none: "glob_sorted example_dir ''x'' = []"
  by code_simp

theorem load_embeddings_merge_witness:
  "load_embeddings example_dir ''e''
     = (Inr (map_of [(7, [1, 1]), (5, [1, 0]), (4, [0, 1])]), [''e0.pkl'', ''e1.pkl''])
   \<and> load_embeddings example_dir ''x'' = (Inl (FileNotFoundError ''x''), [])"
proof -
  let ?files = "glob_sorted example_dir ''e''"
  have rows: "\<forall>u \<in> set (concat (map (embeddings \<circ> snd) ?files)).
      \<forall>v \<in> set (concat (map (embeddings \<circ> snd) ?files)). length u = length v"
    unfolding ex_glob by simp
  have ne: "?files \<noteq> []"
    unfolding ex_glob by simp
  from load_embeddings_merge [OF refl, of example_dir "''e''"] ne rows
  have "load_embeddings example_dir ''e''
     = (Inr (map_of (rev (zip (concat (map (ids \<circ> snd) ?files))
                             (concat (map (embeddings \<circ> snd) ?files))))),
        map fst ?files)"
    by blast
  then have a: "load_embeddings example_dir ''e''
     = (Inr (map_of [(7, [1, 1]), (5, [1, 0]), (4, [0, 1])]), [''e0.pkl'', ''e1.pkl''])"
    unfolding ex_glob by simp
  have b: "load_embeddings example_dir ''x'' = (Inl (FileNotFoundError ''x''), [])"
    using load_embeddings_merge [OF refl, of example_dir "''x''"] ex_glob_none by blast
  from a b show ?thesis by (rule conjI)
qed

section \<open>Further properties of the forward paths and the trainer\<close>

lemma cp_ffn_shape:
  assumes c: "constructed m" and S: "shape2 B (item_encoder_d_embed m) S"
  shows "\<exists>out. cp_ffn m rho S = Inr out \<and> shape2 B 1 out"
proof -
  have W: "shape2 1 (item_encoder_d_embed m) (cp_ffn_weight m)" and lb: "length (cp_ffn_bias m) = 1"
    using c by (simp_all add: constructed_def)
  let ?D = "dropout (cp_ffn_p m) (training m) (cp_keep rho) S"
  have D: "shape2 B (item_encoder_d_embed m) ?D"
    using S by (rule dropout_shape)
  have "length (map2 (\<lambda>w c. dot w s + c) (cp_ffn_weight m) (cp_ffn_bias m)) = 1" for s
    using W lb by (simp add: shape2_def)
  then have "shape2 B 1 (map (\<lambda>s. map2 (\<lambda>w c. dot w s + c) (cp_ffn_weight m) (cp_ffn_bias m)) ?D)"
    using D by (simp add: shape2_def)
  then show ?thesis
    using linear_bias [OF D W, of "cp_ffn_bias m"] by (simp add: cp_ffn_def)
qed

text \<open>
  For every valid batch (embeddings [B, L, d_embed] with a mask [B, L]) the CP
  forward path returns, without an error, a tensor of shape [B, 1].
\<close>

theorem cp_forward_output_shape:
  assumes c: "constructed m" and e: "shape3 B L (item_encoder_d_embed m) e"
    and k: "shape2 B L k"
  shows "\<exists>out. cp_forward m rho e k None = Inr out \<and> shape2 B 1 out"
proof -
  have le: "length e = B" using e by (simp add: shape3_def)
  have tok: "shape3 B 1 (item_encoder_d_embed m) (replicate B [outfit_token m])"
    using c by (intro outfit_token_shape) (simp add: constructed_def)
  from pooled_path [OF c e k tok, of rho] obtain Y where
    Y: "torch_cat3_dim1 (replicate B [outfit_token m]) e = Inr (map2 (@) (replicate B [outfit_token m]) e)"
      "prefixed_mask (length e) k = Inr (map ((#) False) k)"
      "run_transformer_encoder m rho (map2 (@) (replicate B [outfit_token m]) e) (map ((#) False) k) = Inr Y"
      "select_position0 Y = Inr (map (\<lambda>s. s ! 0) Y)"
      "shape2 B (item_encoder_d_embed m) (map (\<lambda>s. s ! 0) Y)"
    by blast
  have "cp_forward m rho e k None = cp_ffn m rho (map (\<lambda>s. s ! 0) Y)"
    using Y(1-4)
    by (simp add: cp_forward_def cp_outfit_embedding_def cp_outfit_token_states_def
          cp_transformer_inputs_def bind_err_def le)
  with cp_ffn_shape [OF c Y(5), of rho] show ?thesis by simp
qed

theorem cp_forward_output_shape_witness:
  "cp_forward example_model example_draws [[[1, 2], [3, 4]]] [[False, True]] None = Inr [[3]]
   \<and> shape2 1 1 [[3 :: real]]"
proof -
  have e: "shape3 1 2 (item_encoder_d_embed example_model) [[[1, 2], [3, 4 :: real]]]"
    and k: "shape2 1 2 [[False, True]]"
    by (simp_all add: shape3_def shape2_def example_model_def)
  from cp_forward_output_shape [OF constructed_example_model e k, of example_draws]
  obtain out where o:
    "cp_forward example_model example_draws [[[1, 2], [3, 4]]] [[False, True]] None = Inr out"
    "shape2 1 1 out"
    by blast
  from o(1) have "out = [[3]]" by (simp add: ex_cp)
  with o show ?thesis by simp
qed

text \<open>
  On an empty test loader \<open>test\<close> divides by the zero total: it raises
  \<open>ZeroDivisionError\<close> and logs no accuracy.
\<close>

theorem test_empty_dataloader: "test m rhos [] = Inl ZeroDivisionError"
  by (simp add: test_def bind_err_def)

text \<open>
  In run mode \<open>test\<close> with a world size of at most one the hook returns, having
  set the device type and asked for the checkpoint
  \<open>complementary_item_retrieval/<model name>_best_Recall@1.pth\<close> beside the
  checkpoint directory.
\<close>

theorem hook_after_setup_single_worker:
  assumes "world_size t \<le> 1" and "run_mode t = ''test''"
  shows "hook_after_setup t
           = (Inr (),
              t\<lparr>device_type := Some (if cuda_is_available t then ''cuda'' else ''cpu''),
                loaded_checkpoint :=
                  Some (checkpoint_dir_parent t @ ''/complementary_item_retrieval/''
                        @ model_name t @ ''_best_Recall@1.pth'')\<rparr>)"
  using assms by (simp add: hook_after_setup_def Let_def)

theorem hook_after_setup_single_worker_witness:
  "loaded_checkpoint (snd (hook_after_setup (example_trainer\<lparr>world_size := 1\<rparr>)))
     = Some ''checkpoints/complementary_item_retrieval/all-MiniLM-L6-v2_best_Recall@1.pth''
   \<and> fst (hook_after_setup (example_trainer\<lparr>world_size := 1\<rparr>)) = Inr ()"
proof -
  have w: "world_size (example_trainer\<lparr>world_size := 1\<rparr>) \<le> 1"
    and r: "run_mode (example_trainer\<lparr>world_size := 1\<rparr>) = ''test''"
    by (simp_all add: example_trainer_def)
  show ?thesis
    using hook_after_setup_single_worker [OF w r] by (simp add: example_trainer_def)
qed

end
